theory Spec2Isabelle
  imports Main "HOL-Library.Word"
begin

unbundle bit_operations_syntax

section \<open>Byte strings and scripts\<close>

text \<open>
  The harness \<^verbatim>\<open>scripts/fuzz.js\<close> drives the script library of the repository
  (\<^verbatim>\<open>lib/script\<close>), which is not among the sources. A Node \<^verbatim>\<open>Buffer\<close> is a list of
  bytes. JavaScript numbers that the harness uses as counters, indices and opcode values
  are integers.
\<close>

type_synonym byte = "8 word"
type_synonym bytes = "byte list"

text \<open>
  Modelled from the spec: the Script value of \<^verbatim>\<open>lib/script/script\<close> and its operations
  (\<^verbatim>\<open>lib/script/opcode\<close>). A script is an ordered sequence of operations, each either an
  opcode or an opaque data push. The harness reads the field \<^verbatim>\<open>op.value\<close> of every
  operation (\<open>op_value\<close>), so both kinds carry their opcode value. A push whose declared length overruns
  the buffer is kept as a parse error that holds the unread bytes, so that the failure is
  deferred to execution time; its value is \<open>-1\<close>, which is no opcode.
\<close>

datatype op =
    is_Opcode: Opcode (op_value: int)
  | is_Push: Push (op_value: int) (data: bytes)
  | is_ParseError: ParseError (data: bytes)
where
  "op_value (ParseError d) = - 1"

type_synonym script = "op list"

text \<open>Little-endian length prefixes of the \<^verbatim>\<open>OP_PUSHDATA\<close> forms.\<close>

fun read_le :: "bytes \<Rightarrow> nat" where
  "read_le [] = 0"
| "read_le (b # bs) = unat b + 256 * read_le bs"

fun write_le :: "nat \<Rightarrow> nat \<Rightarrow> bytes" where
  "write_le 0 n = []"
| "write_le (Suc k) n = of_nat (n mod 256) # write_le k (n div 256)"

text \<open>
  Modelled from the spec: parsing (section 4.1). Bytes are consumed left to right; a byte in
  \<open>[0x01, 0x4b]\<close> is a direct push of that many following bytes; \<^verbatim>\<open>OP_PUSHDATA1/2/4\<close>
  (\<open>0x4c\<close>, \<open>0x4d\<close>, \<open>0x4e\<close>) carry a 1, 2 or 4 byte little-endian length; every other
  byte is an opcode. \<open>read_push v w whole bs\<close> reads a length prefix of \<open>w\<close> bytes and the
  data it announces from \<open>bs\<close>; \<open>whole\<close> is the buffer from the opcode byte on.
\<close>

definition read_push :: "int \<Rightarrow> nat \<Rightarrow> bytes \<Rightarrow> bytes \<Rightarrow> op \<times> bytes" where
  "read_push v w whole bs =
     (if length bs < w then (ParseError whole, [])
      else let n = read_le (take w bs); body = drop w bs
           in if length body < n then (ParseError whole, [])
              else (Push v (take n body), drop n body))"

definition next_op :: "byte \<Rightarrow> bytes \<Rightarrow> op \<times> bytes" where
  "next_op b bs =
     (let v = uint b
      in if 1 \<le> v \<and> v \<le> 0x4b then
           (if length bs < nat v then (ParseError (b # bs), [])
            else (Push v (take (nat v) bs), drop (nat v) bs))
         else if v = 0x4c then read_push v 1 (b # bs) bs
         else if v = 0x4d then read_push v 2 (b # bs) bs
         else if v = 0x4e then read_push v 4 (b # bs) bs
         else (Opcode v, bs))"

lemma read_push_rest: "read_push v w whole bs = (p, rest) \<Longrightarrow> length rest \<le> length bs"
  by (auto simp: read_push_def Let_def split: if_splits)

lemma next_op_rest: "next_op b bs = (p, rest) \<Longrightarrow> length rest \<le> length bs"
  by (auto simp: next_op_def Let_def split: if_splits dest: read_push_rest)

function parse :: "bytes \<Rightarrow> script" where
  "parse [] = []"
| "parse (b # bs) = (case next_op b bs of (p, rest) \<Rightarrow> p # parse rest)"
  by pat_completeness auto
termination
  by (relation "measure length") (auto dest!: next_op_rest [OF sym] simp: less_Suc_eq_le)

text \<open>Modelled from the spec: serialization, the inverse of parsing (section 4.1).\<close>

fun op_toRaw :: "op \<Rightarrow> bytes" where
  "op_toRaw (Opcode v) = [word_of_int v]"
| "op_toRaw (Push v d) =
     (if v = 0x4c then word_of_int v # write_le 1 (length d) @ d
      else if v = 0x4d then word_of_int v # write_le 2 (length d) @ d
      else if v = 0x4e then word_of_int v # write_le 4 (length d) @ d
      else word_of_int v # d)"
| "op_toRaw (ParseError d) = d"

definition serialize :: "script \<Rightarrow> bytes" where
  "serialize s = concat (map op_toRaw s)"

definition fromRaw :: "bytes \<Rightarrow> script" where
  "fromRaw raw = parse raw"

definition toRaw :: "script \<Rightarrow> bytes" where
  "toRaw s = serialize s"

text \<open>
  A well-formed operation is one a parser can produce from its own serialization: an opcode
  is a byte that is not a push byte, and a push carries the number of bytes its opcode
  announces (direct pushes) or its length prefix can hold.
\<close>

fun op_wf :: "op \<Rightarrow> bool" where
  "op_wf (Opcode v) = (0 \<le> v \<and> v \<le> 0xff \<and> \<not> (1 \<le> v \<and> v \<le> 0x4e))"
| "op_wf (Push v d) =
     ((1 \<le> v \<and> v \<le> 0x4b \<and> int (length d) = v)
      \<or> (v = 0x4c \<and> length d < 2 ^ 8)
      \<or> (v = 0x4d \<and> length d < 2 ^ 16)
      \<or> (v = 0x4e \<and> length d < 2 ^ 32))"
| "op_wf (ParseError d) = False"

definition wellformed :: "script \<Rightarrow> bool" where
  "wellformed s = list_all op_wf s"


text \<open>
  Modelled from the spec: the script builder of \<^verbatim>\<open>lib/script/script\<close>
  (\<^verbatim>\<open>Script.write()\<close>, \<^verbatim>\<open>new Script()\<close>, \<^verbatim>\<open>pushData\<close>, \<^verbatim>\<open>compile\<close>, \<^verbatim>\<open>values\<close>).
  \<^verbatim>\<open>pushData\<close> appends one opaque data push in the shortest form the grammar of
  section 4.1 has for its length; a push of no bytes has no direct-push byte there and takes
  the \<^verbatim>\<open>OP_PUSHDATA1\<close> form. \<^verbatim>\<open>compile\<close> fixes the byte encoding of the operations pushed so
  far, which \<open>toRaw\<close> computes from them.
\<close>

definition Script_new :: script where
  "Script_new = []"

definition Script_write :: script where
  "Script_write = []"

definition push_value :: "nat \<Rightarrow> int" where
  "push_value n =
     (if 1 \<le> n \<and> n \<le> 0x4b then int n
      else if n \<le> 0xff then 0x4c
      else if n \<le> 0xffff then 0x4d
      else 0x4e)"

definition pushData :: "bytes \<Rightarrow> script \<Rightarrow> script" where
  "pushData d s = s @ [Push (push_value (length d)) d]"

definition compile :: "script \<Rightarrow> script" where
  "compile s = s"

definition "values" :: "script \<Rightarrow> op list" where
  "values s = s"

text \<open>\<^verbatim>\<open>Buffer.toString('hex')\<close>: two lower-case hexadecimal digits per byte.\<close>

definition hex_digit :: "nat \<Rightarrow> char" where
  "hex_digit n = ''0123456789abcdef'' ! n"

definition toString_hex :: "bytes \<Rightarrow> string" where
  "toString_hex bs = concat (map (\<lambda>b. [hex_digit (unat b div 16), hex_digit (unat b mod 16)]) bs)"

section \<open>Transactions, witnesses and stacks\<close>

text \<open>
  A witness and a stack are ordered sequences of byte strings. Of a transaction the harness
  touches the fields below; the verification flags are a JavaScript bit set, which the
  bitwise operators treat as a 32-bit integer.
\<close>

type_synonym witness = "bytes list"
type_synonym stack = "bytes list"
type_synonym flags = "32 word"

definition Witness_new :: witness where
  "Witness_new = []"

definition Stack_new :: stack where
  "Stack_new = []"

record outpoint =
  prev_hash :: string
  prev_index :: int

record input =
  prevout :: outpoint
  in_script :: script
  in_witness :: witness
  in_sequence :: int

record "output" =
  out_script :: script
  out_value :: int

record tx =
  version :: int
  inputs :: "input list"
  outputs :: "output list"
  locktime :: int

text \<open>
  A JavaScript exception, as far as the harness looks at it: the fields \<^verbatim>\<open>e.type\<close> and
  \<^verbatim>\<open>e.code\<close>, each of which may be undefined. A plain \<^verbatim>\<open>new Error()\<close>, and the
  \<^verbatim>\<open>TypeError\<close> of an assignment to a field of \<^verbatim>\<open>undefined\<close>, have neither.
\<close>

datatype exn = Exn (etype: "string option") (ecode: "string option")

definition Error_new :: exn where
  "Error_new = Exn None None"

definition TypeError :: exn where
  "TypeError = Exn None None"

text \<open>What \<^verbatim>\<open>util.log\<close> is called with: one line is the list of its arguments.\<close>

datatype logv =
    LStr string
  | LNum int
  | LTx tx
  | LScript script
  | LWitness witness
  | LStack stack
  | LFlags flags

type_synonym log_line = "logv list"

section \<open>The library the harness is run against\<close>

text \<open>
  The functions of \<^verbatim>\<open>lib/\<close> that the harness calls and whose results it only passes on
  are parameters of the model: the hash functions, the output templates of \<^verbatim>\<open>Script\<close>,
  the interpreter (\<^verbatim>\<open>execute\<close> returns the stack it was given, as mutated, or raises;
  \<^verbatim>\<open>Script.verify\<close> returns or raises), the optional oracle \<^verbatim>\<open>nodeconsensus\<close>
  (\<open>None\<close> when the module failed to load), the constructors of transactions and the
  constants of \<^verbatim>\<open>Script.opcodes\<close> and \<^verbatim>\<open>Script.flags\<close> that the harness names.
\<close>

record lib =
  hash160 :: "bytes \<Rightarrow> bytes"
  sha256 :: "bytes \<Rightarrow> bytes"
  fromPubkey :: "bytes \<Rightarrow> script"
  fromPubkeyhash :: "bytes \<Rightarrow> script"
  fromMultisig :: "int \<Rightarrow> int \<Rightarrow> bytes list \<Rightarrow> script"
  fromScripthash :: "bytes \<Rightarrow> script"
  fromProgram :: "int \<Rightarrow> bytes \<Rightarrow> script"
  fromItems :: "bytes list \<Rightarrow> script"
  Script_isPushOnly :: "script \<Rightarrow> bool"
  NOP :: int
  NOP_1 :: int
  NOP_3 :: int
  execute :: "script \<Rightarrow> stack \<Rightarrow> flags \<Rightarrow> tx \<Rightarrow> int \<Rightarrow> int \<Rightarrow> int \<Rightarrow> exn + stack"
  verify :: "script \<Rightarrow> witness \<Rightarrow> script \<Rightarrow> tx \<Rightarrow> int \<Rightarrow> int \<Rightarrow> flags \<Rightarrow> exn + unit"
  getBool :: "stack \<Rightarrow> int \<Rightarrow> bool"
  consensus :: "(bytes \<Rightarrow> int \<Rightarrow> bytes \<Rightarrow> int \<Rightarrow> flags \<Rightarrow> string) option"
  Input_fromOutpoint :: "outpoint \<Rightarrow> input"
  Output_fromScript :: "script \<Rightarrow> int \<Rightarrow> output"
  TX_new :: tx
  refresh :: "tx \<Rightarrow> tx"
  tx_toRaw :: "tx \<Rightarrow> bytes"
  MANDATORY_VERIFY_FLAGS :: flags
  STANDARD_VERIFY_FLAGS :: flags
  VERIFY_WITNESS :: flags

text \<open>
  Modelled from the spec: \<^verbatim>\<open>Script.hash160()\<close> and \<^verbatim>\<open>Script.sha256()\<close>. A script-hash
  output commits to the hash of the serialized redeem script (sections 4.4 and 8).
\<close>

definition script_hash160 :: "lib \<Rightarrow> script \<Rightarrow> bytes" where
  "script_hash160 env s = hash160 env (toRaw s)"

definition script_sha256 :: "lib \<Rightarrow> script \<Rightarrow> bytes" where
  "script_sha256 env s = sha256 env (toRaw s)"

definition MANDATORY :: "lib \<Rightarrow> flags" where
  "MANDATORY env = MANDATORY_VERIFY_FLAGS env OR VERIFY_WITNESS env"

definition STANDARD :: "lib \<Rightarrow> flags" where
  "STANDARD env = STANDARD_VERIFY_FLAGS env"

section \<open>Randomness and the console\<close>

text \<open>
  Modelled from the spec: \<^verbatim>\<open>util.random\<close> and \<^verbatim>\<open>random.randomBytes\<close>
  (\<^verbatim>\<open>lib/utils/util\<close>, \<^verbatim>\<open>lib/crypto/random\<close>). The spec treats the random draws as an
  injected generator: here it is an arbitrary stream of natural numbers, of which every
  draw takes the next one. \<^verbatim>\<open>util.random(min, max)\<close> is an integer of \<open>[min, max)\<close>: the
  \<^verbatim>\<open>switch\<close> statements of the harness over \<^verbatim>\<open>util.random(0, k)\<close> have the cases
  \<open>0 .. k - 1\<close> and raise otherwise. An empty range gives \<open>min\<close>.
\<close>

type_synonym rng = "nat \<Rightarrow> nat"

definition draw :: "rng \<Rightarrow> nat \<times> rng" where
  "draw g = (g 0, \<lambda>i. g (Suc i))"

definition util_random :: "int \<Rightarrow> int \<Rightarrow> rng \<Rightarrow> int \<times> rng" where
  "util_random lo hi g =
     (let (r, g1) = draw g
      in (if lo < hi then lo + int r mod (hi - lo) else lo, g1))"

definition randomBytes :: "nat \<Rightarrow> rng \<Rightarrow> bytes \<times> rng" where
  "randomBytes n g = (map (\<lambda>i. of_nat (g i)) [0..<n], \<lambda>i. g (n + i))"

text \<open>
  The state outside the harness's own variables: the generator and the lines written by
  \<^verbatim>\<open>util.log\<close>.
\<close>

record world =
  rng :: rng
  console :: "log_line list"

definition util_log :: "log_line \<Rightarrow> world \<Rightarrow> world" where
  "util_log l w = w\<lparr>console := console w @ [l]\<rparr>"


section \<open>The oracle\<close>

definition verifyConsensus :: "lib \<Rightarrow> tx \<Rightarrow> int \<Rightarrow> script \<Rightarrow> int \<Rightarrow> flags \<Rightarrow> string" where
  "verifyConsensus env tx index output amount flags =
     (case consensus env of
        None \<Rightarrow> ''OK''
      | Some consensus_verify \<Rightarrow>
          consensus_verify (tx_toRaw env tx) index (toRaw output) amount flags)"

text \<open>A template literal prints an undefined value as \<^verbatim>\<open>undefined\<close>.\<close>

definition js_string :: "string option \<Rightarrow> string" where
  "js_string v = (case v of None \<Rightarrow> ''undefined'' | Some s \<Rightarrow> s)"

definition assertConsensus :: "lib \<Rightarrow> tx \<Rightarrow> script \<Rightarrow> flags \<Rightarrow> string option \<Rightarrow> world \<Rightarrow> world" where
  "assertConsensus env tx output flags code w =
     (if consensus env = None then w
      else
        let err = verifyConsensus env tx 0 output 0 flags
        in if Some err \<noteq> code then
             (let w1 = util_log [LStr ''bitcoinconsensus mismatch!''] w;
                  w2 = util_log [LStr (err @ '' (bitcoin core) !== '' @ js_string code @ '' (bcoin)'')] w1;
                  w3 = util_log [LTx tx] w2;
                  w4 = util_log [LScript output] w3;
                  w5 = util_log [LFlags flags] w4;
                  w6 = util_log [LStr ''TX: %s'', LStr (toString_hex (tx_toRaw env tx))] w5
              in util_log [LStr ''Output Script: %s'', LStr (toString_hex (toRaw output))] w6)
           else w)"

section \<open>The random generators\<close>

definition randomOutpoint :: "rng \<Rightarrow> outpoint \<times> rng" where
  "randomOutpoint g =
     (let (h, g1) = randomBytes 32 g;
          (i, g2) = util_random 0 0xffffffff g1
      in (\<lparr>prev_hash = toString_hex h, prev_index = i\<rparr>, g2))"

definition randomInput :: "lib \<Rightarrow> rng \<Rightarrow> input \<times> rng" where
  "randomInput env g =
     (let (p, g1) = randomOutpoint g;
          input = Input_fromOutpoint env p;
          (r, g2) = util_random 0 5 g1
      in if r = 0 then
           (let (q, g3) = util_random 0 0xffffffff g2 in (input\<lparr>in_sequence := q\<rparr>, g3))
         else (input, g2))"

definition randomWitness_push :: "witness \<Rightarrow> rng \<Rightarrow> witness \<times> rng" where
  "randomWitness_push witness g =
     (let (len, g1) = util_random 0 100 g;
          (b, g2) = randomBytes (nat len) g1
      in (witness @ [b], g2))"

fun randomWitness_loop :: "nat \<Rightarrow> witness \<Rightarrow> rng \<Rightarrow> witness \<times> rng" where
  "randomWitness_loop 0 witness g = (witness, g)"
| "randomWitness_loop (Suc n) witness g =
     (case randomWitness_push witness g of (witness1, g1) \<Rightarrow> randomWitness_loop n witness1 g1)"

definition randomWitness :: "bytes option \<Rightarrow> rng \<Rightarrow> witness \<times> rng" where
  "randomWitness redeem g =
     (let (size, g1) = util_random 1 100 g;
          (witness, g2) = randomWitness_loop (nat size) Witness_new g1
      in case redeem of
           None \<Rightarrow> (witness, g2)
         | Some r \<Rightarrow> (witness @ [r], g2))"

definition randomInputScript_push :: "script \<Rightarrow> rng \<Rightarrow> script \<times> rng" where
  "randomInputScript_push script g =
     (let (len, g1) = util_random 0 100 g;
          (b, g2) = randomBytes (nat len) g1
      in (pushData b script, g2))"

fun randomInputScript_loop :: "nat \<Rightarrow> script \<Rightarrow> rng \<Rightarrow> script \<times> rng" where
  "randomInputScript_loop 0 script g = (script, g)"
| "randomInputScript_loop (Suc n) script g =
     (case randomInputScript_push script g of (script1, g1) \<Rightarrow> randomInputScript_loop n script1 g1)"

definition randomInputScript :: "bytes option \<Rightarrow> rng \<Rightarrow> script \<times> rng" where
  "randomInputScript redeem g =
     (let (size, g1) = util_random 1 100 g;
          (script, g2) = randomInputScript_loop (nat size) Script_write g1
      in case redeem of
           None \<Rightarrow> (compile script, g2)
         | Some r \<Rightarrow> (compile (pushData r script), g2))"

definition randomOutputScript :: "rng \<Rightarrow> script \<times> rng" where
  "randomOutputScript g =
     (let (size, g1) = util_random 1 10000 g;
          (b, g2) = randomBytes (nat size) g1
      in (fromRaw b, g2))"

fun isPushOnly_loop :: "lib \<Rightarrow> op list \<Rightarrow> bool" where
  "isPushOnly_loop env [] = True"
| "isPushOnly_loop env (p # ps) =
     (if op_value p = NOP env then isPushOnly_loop env ps
      else if op_value p = NOP_1 env then isPushOnly_loop env ps
      else if op_value p > NOP_3 env then isPushOnly_loop env ps
      else False)"

definition isPushOnly :: "lib \<Rightarrow> script \<Rightarrow> bool" where
  "isPushOnly env script =
     (if Script_isPushOnly env script then True
      else isPushOnly_loop env (values script))"

definition randomPubkey :: "lib \<Rightarrow> rng \<Rightarrow> script \<times> rng" where
  "randomPubkey env g =
     (let (r, g1) = util_random 0 2 g;
          len = (if r = 0 then 33 else 65);
          (b, g2) = randomBytes len g1
      in (fromPubkey env b, g2))"

definition randomPubkeyhash :: "lib \<Rightarrow> rng \<Rightarrow> script \<times> rng" where
  "randomPubkeyhash env g = (let (b, g1) = randomBytes 20 g in (fromPubkeyhash env b, g1))"

definition randomMultisig_push :: "bytes list \<Rightarrow> rng \<Rightarrow> bytes list \<times> rng" where
  "randomMultisig_push keys g =
     (let (r, g1) = util_random 0 2 g;
          len = (if r = 0 then 33 else 65);
          (b, g2) = randomBytes len g1
      in (keys @ [b], g2))"

fun randomMultisig_loop :: "nat \<Rightarrow> bytes list \<Rightarrow> rng \<Rightarrow> bytes list \<times> rng" where
  "randomMultisig_loop 0 keys g = (keys, g)"
| "randomMultisig_loop (Suc k) keys g =
     (case randomMultisig_push keys g of (keys1, g1) \<Rightarrow> randomMultisig_loop k keys1 g1)"

definition randomMultisig :: "lib \<Rightarrow> rng \<Rightarrow> script \<times> rng" where
  "randomMultisig env g =
     (let (n, g1) = util_random 1 16 g;
          (m, g2) = util_random 1 n g1;
          (keys, g3) = randomMultisig_loop (nat n) [] g2
      in (fromMultisig env m n keys, g3))"

definition randomScripthash :: "lib \<Rightarrow> rng \<Rightarrow> script \<times> rng" where
  "randomScripthash env g = (let (b, g1) = randomBytes 20 g in (fromScripthash env b, g1))"

definition randomWitnessPubkeyhash :: "lib \<Rightarrow> rng \<Rightarrow> script \<times> rng" where
  "randomWitnessPubkeyhash env g = (let (b, g1) = randomBytes 20 g in (fromProgram env 0 b, g1))"

definition randomWitnessScripthash :: "lib \<Rightarrow> rng \<Rightarrow> script \<times> rng" where
  "randomWitnessScripthash env g = (let (b, g1) = randomBytes 32 g in (fromProgram env 0 b, g1))"

definition randomProgram :: "lib \<Rightarrow> rng \<Rightarrow> script \<times> rng" where
  "randomProgram env g =
     (let (version, g1) = util_random 0 16 g;
          (size, g2) = util_random 2 41 g1;
          (b, g3) = randomBytes (nat size) g2
      in (fromProgram env version b, g3))"

definition randomRedeem :: "lib \<Rightarrow> rng \<Rightarrow> exn + script \<times> rng" where
  "randomRedeem env g =
     (let (r, g1) = util_random 0 5 g
      in if r = 0 then Inr (randomPubkey env g1)
         else if r = 1 then Inr (randomPubkeyhash env g1)
         else if r = 2 then Inr (randomMultisig env g1)
         else if r = 3 then Inr (randomWitnessPubkeyhash env g1)
         else if r = 4 then Inr (randomProgram env g1)
         else Inl Error_new)"

definition randomScript :: "lib \<Rightarrow> rng \<Rightarrow> exn + script \<times> rng" where
  "randomScript env g =
     (let (r, g1) = util_random 0 7 g
      in if r = 0 then Inr (randomPubkey env g1)
         else if r = 1 then Inr (randomPubkeyhash env g1)
         else if r = 2 then Inr (randomMultisig env g1)
         else if r = 3 then Inr (randomScripthash env g1)
         else if r = 4 then Inr (randomWitnessPubkeyhash env g1)
         else if r = 5 then Inr (randomWitnessScripthash env g1)
         else if r = 6 then Inr (randomProgram env g1)
         else Inl Error_new)"

definition randomOutput :: "lib \<Rightarrow> rng \<Rightarrow> exn + output \<times> rng" where
  "randomOutput env g =
     (case randomScript env g of
        Inl e \<Rightarrow> Inl e
      | Inr (script, g1) \<Rightarrow>
          (let (v, g2) = util_random 0 100000000 g1
           in Inr (Output_fromScript env script v, g2)))"

fun randomTX_inputs :: "lib \<Rightarrow> nat \<Rightarrow> tx \<Rightarrow> rng \<Rightarrow> tx \<times> rng" where
  "randomTX_inputs env 0 tx g = (tx, g)"
| "randomTX_inputs env (Suc n) tx g =
     (case randomInput env g of
        (i, g1) \<Rightarrow> randomTX_inputs env n (tx\<lparr>inputs := inputs tx @ [i]\<rparr>) g1)"

fun randomTX_outputs :: "lib \<Rightarrow> nat \<Rightarrow> tx \<Rightarrow> rng \<Rightarrow> exn + tx \<times> rng" where
  "randomTX_outputs env 0 tx g = Inr (tx, g)"
| "randomTX_outputs env (Suc n) tx g =
     (case randomOutput env g of
        Inl e \<Rightarrow> Inl e
      | Inr (out, g1) \<Rightarrow> randomTX_outputs env n (tx\<lparr>outputs := outputs tx @ [out]\<rparr>) g1)"

definition randomTX :: "lib \<Rightarrow> rng \<Rightarrow> exn + tx \<times> rng" where
  "randomTX env g =
     (let (n_in, g1) = util_random 1 5 g;
          (n_out, g2) = util_random 0 5 g1;
          (v, g3) = util_random 0 0xffffffff g2;
          (tx1, g4) = randomTX_inputs env (nat n_in) ((TX_new env)\<lparr>version := v\<rparr>) g3
      in case randomTX_outputs env (nat n_out) tx1 g4 of
           Inl e \<Rightarrow> Inl e
         | Inr (tx2, g5) \<Rightarrow>
             (let (r, g6) = util_random 0 5 g5
              in if r = 0 then
                   (let (l, g7) = util_random 0 0xffffffff g6
                    in Inr (refresh env (tx2\<lparr>locktime := l\<rparr>), g7))
                 else Inr (refresh env tx2, g6)))"


section \<open>Spending contexts\<close>

record ctx =
  ctx_input :: script
  ctx_witness :: witness
  ctx_output :: script
  ctx_redeem :: "script option"

definition randomPubkeyContext :: "lib \<Rightarrow> rng \<Rightarrow> ctx \<times> rng" where
  "randomPubkeyContext env g =
     (let (i, g1) = randomInputScript None g;
          (out, g2) = randomPubkey env g1
      in (\<lparr>ctx_input = i, ctx_witness = Witness_new, ctx_output = out, ctx_redeem = None\<rparr>, g2))"

definition randomPubkeyhashContext :: "lib \<Rightarrow> rng \<Rightarrow> ctx \<times> rng" where
  "randomPubkeyhashContext env g =
     (let (i, g1) = randomInputScript None g;
          (out, g2) = randomPubkeyhash env g1
      in (\<lparr>ctx_input = i, ctx_witness = Witness_new, ctx_output = out, ctx_redeem = None\<rparr>, g2))"

definition randomScripthashContext :: "lib \<Rightarrow> rng \<Rightarrow> exn + ctx \<times> rng" where
  "randomScripthashContext env g =
     (case randomRedeem env g of
        Inl e \<Rightarrow> Inl e
      | Inr (redeem, g1) \<Rightarrow>
          (let (i, g2) = randomInputScript (Some (toRaw redeem)) g1
           in Inr (\<lparr>ctx_input = i,
                    ctx_witness = Witness_new,
                    ctx_output = fromScripthash env (script_hash160 env redeem),
                    ctx_redeem = Some redeem\<rparr>, g2)))"

definition randomWitnessPubkeyhashContext :: "lib \<Rightarrow> rng \<Rightarrow> ctx \<times> rng" where
  "randomWitnessPubkeyhashContext env g =
     (let (wit, g1) = randomWitness None g;
          (out, g2) = randomWitnessPubkeyhash env g1
      in (\<lparr>ctx_input = Script_new, ctx_witness = wit, ctx_output = out, ctx_redeem = None\<rparr>, g2))"

definition randomWitnessScripthashContext :: "lib \<Rightarrow> rng \<Rightarrow> exn + ctx \<times> rng" where
  "randomWitnessScripthashContext env g =
     (case randomRedeem env g of
        Inl e \<Rightarrow> Inl e
      | Inr (redeem, g1) \<Rightarrow>
          (let (wit, g2) = randomWitness (Some (toRaw redeem)) g1
           in Inr (\<lparr>ctx_input = Script_new,
                    ctx_witness = wit,
                    ctx_output = fromProgram env 0 (script_sha256 env redeem),
                    ctx_redeem = Some redeem\<rparr>, g2)))"

definition randomWitnessNestedContext :: "lib \<Rightarrow> rng \<Rightarrow> exn + ctx \<times> rng" where
  "randomWitnessNestedContext env g =
     (case randomRedeem env g of
        Inl e \<Rightarrow> Inl e
      | Inr (redeem, g1) \<Rightarrow>
          (let program = fromProgram env 0 (script_sha256 env redeem);
               (wit, g2) = randomWitness (Some (toRaw redeem)) g1
           in Inr (\<lparr>ctx_input = fromItems env [toRaw program],
                    ctx_witness = wit,
                    ctx_output = fromScripthash env (script_hash160 env program),
                    ctx_redeem = Some redeem\<rparr>, g2)))"

definition randomContext :: "lib \<Rightarrow> rng \<Rightarrow> exn + ctx \<times> rng" where
  "randomContext env g =
     (let (r, g1) = util_random 0 6 g
      in if r = 0 then Inr (randomPubkeyContext env g1)
         else if r = 1 then Inr (randomPubkeyhashContext env g1)
         else if r = 2 then randomScripthashContext env g1
         else if r = 3 then Inr (randomWitnessPubkeyhashContext env g1)
         else if r = 4 then randomWitnessScripthashContext env g1
         else if r = 5 then randomWitnessNestedContext env g1
         else Inl Error_new)"

section \<open>The fuzz loops\<close>

text \<open>
  One pass through the body of a \<^verbatim>\<open>for (;;)\<close> loop ends in \<^verbatim>\<open>continue\<close> (with the
  loop's variables \<^verbatim>\<open>tx\<close> and \<^verbatim>\<open>total\<close>), in \<^verbatim>\<open>break\<close>, or in an exception that
  leaves the loop and the harness. The loops need not end: they are run on a bounded number
  of passes, and \<open>None\<close> is a loop that is still running when the bound is reached.
\<close>

datatype pass = Continue tx int world | Break world | Throw exn world

datatype run = Returned world | Aborted exn world

text \<open>The opening of each loop body: the counter, its log line and the periodic new transaction.\<close>

definition count_pass :: "lib \<Rightarrow> tx \<Rightarrow> int \<Rightarrow> world \<Rightarrow> exn \<times> world + tx \<times> int \<times> world" where
  "count_pass env tx total0 w =
     (let total1 = total0 + 1;
          w1 = (if total1 mod 1000 = 0 then util_log [LStr ''Fuzzed %d scripts.'', LNum total1] w else w)
      in if total1 mod 500 = 0 then
           (case randomTX env (rng w1) of
              Inl e \<Rightarrow> Inl (e, w1)
            | Inr (tx1, g) \<Rightarrow> Inr (tx1, total1, w1\<lparr>rng := g\<rparr>))
         else Inr (tx, total1, w1))"

definition report_simple :: "script \<Rightarrow> script \<Rightarrow> stack \<Rightarrow> world \<Rightarrow> world" where
  "report_simple i out stack w =
     (let w1 = util_log [LStr ''Produced valid scripts:''] w;
          w2 = util_log [LStr ''Input:''] w1;
          w3 = util_log [LScript i] w2;
          w4 = util_log [LStr ''Output:''] w3;
          w5 = util_log [LScript out] w4;
          w6 = util_log [LStr ''Stack:''] w5
      in util_log [LStack stack] w6)"

definition fuzzSimple_pass :: "lib \<Rightarrow> flags \<Rightarrow> tx \<Rightarrow> int \<Rightarrow> world \<Rightarrow> pass" where
  "fuzzSimple_pass env flags tx0 total0 w0 =
     (case count_pass env tx0 total0 w0 of
        Inl (e, w) \<Rightarrow> Throw e w
      | Inr (tx, total1, w) \<Rightarrow>
          (let stack = Stack_new;
               (i, g1) = randomInputScript None (rng w);
               w1 = w\<lparr>rng := g1\<rparr>
           in case execute env i stack flags tx 0 0 0 of
                Inl e \<Rightarrow>
                  if etype e = Some ''ScriptError'' then Continue tx total1 w1 else Throw e w1
              | Inr stack1 \<Rightarrow>
                  (let (out, g2) = randomOutputScript (rng w1);
                       w2 = w1\<lparr>rng := g2\<rparr>
                   in case execute env out stack1 flags tx 0 0 0 of
                        Inl e \<Rightarrow>
                          if etype e = Some ''ScriptError'' then Continue tx total1 w2 else Throw e w2
                      | Inr stack2 \<Rightarrow>
                          if length stack2 = 0 then Continue tx total1 w2
                          else if \<not> getBool env stack2 (- 1) then Continue tx total1 w2
                          else if isPushOnly env out then Continue tx total1 w2
                          else Break (report_simple i out stack2 w2))))"

fun fuzzSimple_loop :: "lib \<Rightarrow> flags \<Rightarrow> nat \<Rightarrow> tx \<Rightarrow> int \<Rightarrow> world \<Rightarrow> run option" where
  "fuzzSimple_loop env flags 0 tx total0 w = None"
| "fuzzSimple_loop env flags (Suc n) tx total0 w =
     (case fuzzSimple_pass env flags tx total0 w of
        Continue tx1 total1 w1 \<Rightarrow> fuzzSimple_loop env flags n tx1 total1 w1
      | Break w1 \<Rightarrow> Some (Returned w1)
      | Throw e w1 \<Rightarrow> Some (Aborted e w1))"

definition fuzzSimple :: "lib \<Rightarrow> flags \<Rightarrow> nat \<Rightarrow> world \<Rightarrow> run option" where
  "fuzzSimple env flags n w =
     (case randomTX env (rng w) of
        Inl e \<Rightarrow> Some (Aborted e w)
      | Inr (tx, g) \<Rightarrow> fuzzSimple_loop env flags n tx (- 1) (w\<lparr>rng := g\<rparr>))"


definition report_verify :: "script \<Rightarrow> witness \<Rightarrow> script \<Rightarrow> world \<Rightarrow> world" where
  "report_verify i wit out w =
     (let w1 = util_log [LStr ''Produced valid scripts:''] w;
          w2 = util_log [LStr ''Input:''] w1;
          w3 = util_log [LScript i] w2;
          w4 = util_log [LStr ''Witness:''] w3;
          w5 = util_log [LWitness wit] w4;
          w6 = util_log [LStr ''Output:''] w5
      in util_log [LScript out] w6)"

definition fuzzVerify_pass :: "lib \<Rightarrow> flags \<Rightarrow> tx \<Rightarrow> int \<Rightarrow> world \<Rightarrow> pass" where
  "fuzzVerify_pass env flags tx0 total0 w0 =
     (case count_pass env tx0 total0 w0 of
        Inl (e, w) \<Rightarrow> Throw e w
      | Inr (tx, total1, w) \<Rightarrow>
          (let (i, g1) = randomInputScript None (rng w);
               (wit, g2) = randomWitness None g1;
               (out, g3) = randomOutputScript g2;
               w1 = w\<lparr>rng := g3\<rparr>
           in case inputs tx of
                [] \<Rightarrow> Throw TypeError w1
              | first # others \<Rightarrow>
                  (let tx1 = tx\<lparr>inputs := first\<lparr>in_script := i, in_witness := wit\<rparr> # others\<rparr>;
                       tx3 = refresh env tx1
                   in case verify env i wit out tx3 0 0 flags of
                        Inl e \<Rightarrow>
                          if etype e = Some ''ScriptError'' then
                            Continue tx3 total1 (assertConsensus env tx3 out flags (ecode e) w1)
                          else Throw e w1
                      | Inr _ \<Rightarrow>
                          (let w2 = assertConsensus env tx3 out flags (Some ''OK'') w1
                           in if isPushOnly env out then Continue tx3 total1 w2
                              else Break (report_verify i wit out w2)))))"

fun fuzzVerify_loop :: "lib \<Rightarrow> flags \<Rightarrow> nat \<Rightarrow> tx \<Rightarrow> int \<Rightarrow> world \<Rightarrow> run option" where
  "fuzzVerify_loop env flags 0 tx total0 w = None"
| "fuzzVerify_loop env flags (Suc n) tx total0 w =
     (case fuzzVerify_pass env flags tx total0 w of
        Continue tx1 total1 w1 \<Rightarrow> fuzzVerify_loop env flags n tx1 total1 w1
      | Break w1 \<Rightarrow> Some (Returned w1)
      | Throw e w1 \<Rightarrow> Some (Aborted e w1))"

definition fuzzVerify :: "lib \<Rightarrow> flags \<Rightarrow> nat \<Rightarrow> world \<Rightarrow> run option" where
  "fuzzVerify env flags n w =
     (case randomTX env (rng w) of
        Inl e \<Rightarrow> Some (Aborted e w)
      | Inr (tx, g) \<Rightarrow> fuzzVerify_loop env flags n tx (- 1) (w\<lparr>rng := g\<rparr>))"

definition report_less :: "ctx \<Rightarrow> world \<Rightarrow> world" where
  "report_less c w =
     (let w1 = util_log [LStr ''Produced valid scripts:''] w;
          w2 = util_log [LStr ''Input:''] w1;
          w3 = util_log [LScript (ctx_input c)] w2;
          w4 = util_log [LStr ''Witness:''] w3;
          w5 = util_log [LWitness (ctx_witness c)] w4;
          w6 = util_log [LStr ''Output:''] w5;
          w7 = util_log [LScript (ctx_output c)] w6
      in case ctx_redeem c of
           None \<Rightarrow> w7
         | Some redeem \<Rightarrow> util_log [LScript redeem] (util_log [LStr ''Redeem:''] w7))"

definition fuzzLess_pass :: "lib \<Rightarrow> flags \<Rightarrow> tx \<Rightarrow> int \<Rightarrow> world \<Rightarrow> pass" where
  "fuzzLess_pass env flags tx0 total0 w0 =
     (case count_pass env tx0 total0 w0 of
        Inl (e, w) \<Rightarrow> Throw e w
      | Inr (tx, total1, w) \<Rightarrow>
          (case randomContext env (rng w) of
             Inl e \<Rightarrow> Throw e w
           | Inr (c, g1) \<Rightarrow>
               (let w1 = w\<lparr>rng := g1\<rparr>
                in case inputs tx of
                     [] \<Rightarrow> Throw TypeError w1
                   | first # others \<Rightarrow>
                       (let tx1 = tx\<lparr>inputs := first\<lparr>in_script := ctx_input c,
                                                     in_witness := ctx_witness c\<rparr> # others\<rparr>;
                            tx3 = refresh env tx1
                        in case verify env (ctx_input c) (ctx_witness c) (ctx_output c) tx3 0 0 flags of
                             Inl e \<Rightarrow>
                               if etype e = Some ''ScriptError'' then
                                 Continue tx3 total1
                                   (assertConsensus env tx3 (ctx_output c) flags (ecode e) w1)
                               else Throw e w1
                           | Inr _ \<Rightarrow>
                               Break (report_less c
                                 (assertConsensus env tx3 (ctx_output c) flags (Some ''OK'') w1))))))"

fun fuzzLess_loop :: "lib \<Rightarrow> flags \<Rightarrow> nat \<Rightarrow> tx \<Rightarrow> int \<Rightarrow> world \<Rightarrow> run option" where
  "fuzzLess_loop env flags 0 tx total0 w = None"
| "fuzzLess_loop env flags (Suc n) tx total0 w =
     (case fuzzLess_pass env flags tx total0 w of
        Continue tx1 total1 w1 \<Rightarrow> fuzzLess_loop env flags n tx1 total1 w1
      | Break w1 \<Rightarrow> Some (Returned w1)
      | Throw e w1 \<Rightarrow> Some (Aborted e w1))"

definition fuzzLess :: "lib \<Rightarrow> flags \<Rightarrow> nat \<Rightarrow> world \<Rightarrow> run option" where
  "fuzzLess env flags n w =
     (case randomTX env (rng w) of
        Inl e \<Rightarrow> Some (Aborted e w)
      | Inr (tx, g) \<Rightarrow> fuzzLess_loop env flags n tx (- 1) (w\<lparr>rng := g\<rparr>))"


section \<open>The entry point\<close>

text \<open>
  \<^verbatim>\<open>main\<close> reads the command line: \<^verbatim>\<open>--standard\<close> anywhere selects the standard flags,
  and the third word selects the loop.
\<close>

definition main :: "lib \<Rightarrow> string list \<Rightarrow> nat \<Rightarrow> world \<Rightarrow> run option" where
  "main env argv n w =
     (let flags = (if ''--standard'' \<in> set argv then STANDARD env else MANDATORY env)
      in if 2 < length argv \<and> argv ! 2 = ''simple'' then fuzzSimple env flags n w
         else if 2 < length argv \<and> argv ! 2 = ''verify'' then fuzzVerify env flags n w
         else if 2 < length argv \<and> argv ! 2 = ''less'' then fuzzLess env flags n w
         else
           (let w1 = util_log [LStr ''Please select a mode:''] w;
                w2 = util_log [LStr ''simple, verify, less''] w1
            in Some (Returned (util_log [LStr ''Optional `--standard` flag.''] w2))))"

section \<open>An instance of the library\<close>

text \<open>
  A small instance of the library parameters, on which the model can be evaluated: the
  usual output templates, an interpreter that runs data pushes and rejects every other
  operation, a verifier that rejects every spend, and no oracle. \<open>world0\<close> is a world whose
  generator always draws \<open>0\<close>.
\<close>

definition lib0 :: lib where
  "lib0 =
     \<lparr>hash160 = (\<lambda>b. take 20 (b @ replicate 20 0)),
      sha256 = (\<lambda>b. take 32 (b @ replicate 32 0)),
      fromPubkey = (\<lambda>k. [Push (push_value (length k)) k, Opcode 0xac]),
      fromPubkeyhash = (\<lambda>h. [Opcode 0x76, Opcode 0xa9, Push (push_value (length h)) h,
                              Opcode 0x88, Opcode 0xac]),
      fromMultisig = (\<lambda>m n keys. Opcode (0x50 + m) # map (\<lambda>k. Push (push_value (length k)) k) keys
                                  @ [Opcode (0x50 + n), Opcode 0xae]),
      fromScripthash = (\<lambda>h. [Opcode 0xa9, Push (push_value (length h)) h, Opcode 0x87]),
      fromProgram = (\<lambda>v d. [Opcode (if v = 0 then 0 else 0x50 + v), Push (push_value (length d)) d]),
      fromItems = map (\<lambda>d. Push (push_value (length d)) d),
      Script_isPushOnly = list_all (\<lambda>p. 0 \<le> op_value p \<and> op_value p \<le> 0x60),
      NOP = 0x61,
      NOP_1 = 0xb0,
      NOP_3 = 0xb2,
      execute = (\<lambda>s st f t i v ver.
                   if list_all is_Push s then Inr (st @ map data s)
                   else Inl (Exn (Some ''ScriptError'') (Some ''BAD_OPCODE''))),
      verify = (\<lambda>i w out t idx v f. Inl (Exn (Some ''ScriptError'') (Some ''EVAL_FALSE''))),
      getBool = (\<lambda>st i. st \<noteq> [] \<and> list_ex (\<lambda>b. b \<noteq> 0) (last st)),
      consensus = None,
      Input_fromOutpoint = (\<lambda>p. \<lparr>prevout = p, in_script = [], in_witness = [],
                                  in_sequence = 0xffffffff\<rparr>),
      Output_fromScript = (\<lambda>s v. \<lparr>out_script = s, out_value = v\<rparr>),
      TX_new = \<lparr>version = 1, inputs = [], outputs = [], locktime = 0\<rparr>,
      refresh = (\<lambda>t. t),
      tx_toRaw = (\<lambda>t. map (\<lambda>i. of_nat (length (in_script i))) (inputs t)),
      MANDATORY_VERIFY_FLAGS = 1,
      STANDARD_VERIFY_FLAGS = 0x1ffff,
      VERIFY_WITNESS = 0x800\<rparr>"

definition world0 :: world where
  "world0 = \<lparr>rng = (\<lambda>i. 0), console = []\<rparr>"

text \<open>
  A transaction with one input; a library that accepts every script and every spend; and a
  library whose interpreter and verifier raise a plain \<^verbatim>\<open>Error\<close>.
\<close>

definition tx_one :: tx where
  "tx_one = \<lparr>version = 1,
          inputs = [\<lparr>prevout = \<lparr>prev_hash = [], prev_index = 0\<rparr>, in_script = [], in_witness = [],
                     in_sequence = 0xffffffff\<rparr>],
          outputs = [], locktime = 0\<rparr>"

definition lib_accept :: lib where
  "lib_accept = lib0\<lparr>execute := (\<lambda>s st f t i v ver. Inr (st @ [[1]])),
                     verify := (\<lambda>i w out t idx v f. Inr ())\<rparr>"

definition lib_crash :: lib where
  "lib_crash = lib0\<lparr>execute := (\<lambda>s st f t i v ver. Inl (Exn None None)),
                     verify := (\<lambda>i w out t idx v f. Inl (Exn None None))\<rparr>"

section \<open>Libraries that differ in the engine\<close>

text \<open>
  \<open>with_engine\<close> replaces the interpreter, the verifier and the oracle of a library.
  Two oracles agree at input \<open>0\<close> and amount \<open>0\<close> when both are absent, or both are
  present and return the same code on every call with that index and that amount.
\<close>

definition with_engine :: "lib \<Rightarrow> (script \<Rightarrow> stack \<Rightarrow> flags \<Rightarrow> tx \<Rightarrow> int \<Rightarrow> int \<Rightarrow> int \<Rightarrow> exn + stack)
    \<Rightarrow> (script \<Rightarrow> witness \<Rightarrow> script \<Rightarrow> tx \<Rightarrow> int \<Rightarrow> int \<Rightarrow> flags \<Rightarrow> exn + unit)
    \<Rightarrow> (bytes \<Rightarrow> int \<Rightarrow> bytes \<Rightarrow> int \<Rightarrow> flags \<Rightarrow> string) option \<Rightarrow> lib" where
  "with_engine env ex vf orc = env\<lparr>execute := ex, verify := vf, consensus := orc\<rparr>"

definition oracles_agree ::
  "(bytes \<Rightarrow> int \<Rightarrow> bytes \<Rightarrow> int \<Rightarrow> flags \<Rightarrow> string) option
    \<Rightarrow> (bytes \<Rightarrow> int \<Rightarrow> bytes \<Rightarrow> int \<Rightarrow> flags \<Rightarrow> string) option \<Rightarrow> bool" where
  "oracles_agree a b =
     ((a = None \<and> b = None)
      \<or> (\<exists>v v'. a = Some v \<and> b = Some v' \<and> (\<forall>rt ro f. v' rt 0 ro 0 f = v rt 0 ro 0 f)))"

text \<open>
  A library with an oracle that accepts every spend, and a library that agrees with it on
  every call for input index \<open>0\<close> and amount \<open>0\<close> and differs on every other call.
\<close>

definition lib_oracle :: lib where
  "lib_oracle = lib0\<lparr>consensus := Some (\<lambda>rt i ro v f. ''OK'')\<rparr>"

definition lib_elsewhere :: lib where
  "lib_elsewhere =
     lib_oracle\<lparr>execute := (\<lambda>s st f t i v ver.
                               if i = 0 \<and> v = 0 then execute lib_oracle s st f t i v ver
                               else Inr []),
                 verify := (\<lambda>i wit out t idx v f.
                              if idx = 0 \<and> v = 0 then verify lib_oracle i wit out t idx v f
                              else Inr ()),
                 consensus := Some (\<lambda>rt i ro v f.
                              if i = 0 \<and> v = 0 then ''OK'' else ''EVAL_FALSE'')\<rparr>"

section \<open>Serialization round trip\<close>

lemma length_write_le: "length (write_le k n) = k"
  by (induction k arbitrary: n) auto

lemma unat_byte_mod: "unat (of_nat (n mod 256) :: byte) = n mod 256"
  by (simp add: unat_of_nat)

lemma read_write_le: "read_le (write_le k n) = n mod 256 ^ k"
proof (induction k arbitrary: n)
  case 0
  then show ?case by simp
next
  case (Suc k)
  have "n mod 256 + 256 * (n div 256 mod 256 ^ k) = n mod (256 * 256 ^ k)"
    by (simp add: mod_mult2_eq)
  with Suc show ?case by (simp add: unat_byte_mod)
qed

lemma read_push_write:
  "length d < 256 ^ k \<Longrightarrow>
   read_push v k whole (write_le k (length d) @ d @ rest) = (Push v d, rest)"
  by (simp add: read_push_def Let_def length_write_le read_write_le)

lemma uint_byte_of_int: "0 \<le> v \<Longrightarrow> v \<le> 0xff \<Longrightarrow> uint (word_of_int v :: byte) = v"
  by (simp add: uint_word_of_int take_bit_int_eq_self)

lemma next_op_toRaw:
  assumes "op_wf p" and "op_toRaw p @ rest = b # bs"
  shows "next_op b bs = (p, rest)"
proof (cases p)
  case (Opcode v)
  with assms have b: "b = word_of_int v" and bs: "bs = rest"
    and v: "0 \<le> v" "v \<le> 0xff" "\<not> (1 \<le> v \<and> v \<le> 0x4e)"
    by auto
  from v have "uint b = v" unfolding b by (simp add: uint_byte_of_int)
  with v bs Opcode show ?thesis by (auto simp: next_op_def Let_def)
next
  case (Push v d)
  from assms Push have v: "0 \<le> v" "v \<le> 0xff" by auto
  from assms Push have b: "b = word_of_int v" by (auto split: if_splits)
  with v have ub: "uint b = v" by (simp add: uint_byte_of_int)
  consider (direct) "1 \<le> v" "v \<le> 0x4b" "int (length d) = v"
    | (p1) "v = 0x4c" "length d < 2 ^ 8"
    | (p2) "v = 0x4d" "length d < 2 ^ 16"
    | (p4) "v = 0x4e" "length d < 2 ^ 32"
    using assms(1) Push by auto
  then show ?thesis
  proof cases
    case direct
    with assms Push have "bs = d @ rest" by (auto split: if_splits)
    with direct ub Push show ?thesis by (auto simp: next_op_def Let_def)
  next
    case p1
    with assms Push have "bs = write_le 1 (length d) @ d @ rest" by auto
    with p1 ub Push show ?thesis
      using read_push_write [of d 1 v "b # bs" rest]
      by (simp add: next_op_def Let_def)
  next
    case p2
    with assms Push have "bs = write_le 2 (length d) @ d @ rest" by auto
    with p2 ub Push show ?thesis
      using read_push_write [of d 2 v "b # bs" rest]
      by (simp add: next_op_def Let_def)
  next
    case p4
    with assms Push have "bs = write_le 4 (length d) @ d @ rest" by auto
    with p4 ub Push show ?thesis
      using read_push_write [of d 4 v "b # bs" rest]
      by (simp add: next_op_def Let_def)
  qed
next
  case (ParseError d)
  with assms show ?thesis by simp
qed

lemma op_toRaw_nonempty: "op_wf p \<Longrightarrow> op_toRaw p \<noteq> []"
  by (cases p) auto

lemma parse_op_toRaw:
  assumes "op_wf p"
  shows "parse (op_toRaw p @ rest) = p # parse rest"
proof -
  from assms obtain b bs where eq: "op_toRaw p @ rest = b # bs"
    using op_toRaw_nonempty [OF assms] by (cases "op_toRaw p @ rest") auto
  from next_op_toRaw [OF assms eq] show ?thesis
    unfolding eq by simp
qed

lemma parse_serialize: "wellformed s \<Longrightarrow> parse (serialize s) = s"
  by (induction s) (auto simp: wellformed_def serialize_def parse_op_toRaw)

text \<open>
  The other direction holds for every byte string, parse errors included; and every
  operation the parser produces is well-formed or is the parse error at the end.
\<close>

lemma write_read_le: "write_le (length xs) (read_le xs) = xs"
proof (induction xs)
  case Nil
  then show ?case by simp
next
  case (Cons b bs)
  have lt: "unat b < 256" using unsigned_less [of b, where ?'a = nat] by simp
  then have "(unat b + 256 * read_le bs) mod 256 = unat b"
    and "(unat b + 256 * read_le bs) div 256 = read_le bs"
    by simp_all
  with Cons show ?case by simp
qed

lemma read_push_toRaw:
  assumes "read_push v k (b # bs) bs = (p, rest)"
    and "b = word_of_int v"
    and "(v = 0x4c \<and> k = 1) \<or> (v = 0x4d \<and> k = 2) \<or> (v = 0x4e \<and> k = 4)"
  shows "op_toRaw p @ rest = b # bs"
proof (cases "length bs < k")
  case True
  with assms show ?thesis by (auto simp: read_push_def)
next
  case False
  define n where "n = read_le (take k bs)"
  show ?thesis
  proof (cases "length (drop k bs) < n")
    case True
    with False assms show ?thesis by (auto simp: read_push_def n_def Let_def)
  next
    case short: False
    with False assms(1) have p: "p = Push v (take n (drop k bs))" and rest: "rest = drop n (drop k bs)"
      by (simp_all add: read_push_def n_def Let_def)
    from short have len: "length (take n (drop k bs)) = n" by simp
    from False have "length (take k bs) = k" by simp
    then have "write_le k n = take k bs"
      unfolding n_def using write_read_le [of "take k bs"] by simp
    moreover have "take k bs @ take n (drop k bs) @ drop n (drop k bs) = bs"
      by (simp only: append_take_drop_id)
    ultimately have "write_le k n @ take n (drop k bs) @ drop n (drop k bs) = bs"
      by (simp only:)
    with p rest len assms(2,3) show ?thesis by auto
  qed
qed

lemma word_of_int_uint_byte: "word_of_int (uint b) = (b :: byte)"
  by simp

lemma next_op_serialize:
  assumes "next_op b bs = (p, rest)"
  shows "op_toRaw p @ rest = b # bs"
proof -
  define v where "v = uint b"
  have b: "b = word_of_int v" by (simp add: v_def)
  consider (direct) "1 \<le> v" "v \<le> 0x4b" | (p1) "v = 0x4c" | (p2) "v = 0x4d" | (p4) "v = 0x4e"
    | (other) "\<not> (1 \<le> v \<and> v \<le> 0x4e)"
    by linarith
  then show ?thesis
  proof cases
    case direct
    show ?thesis
    proof (cases "length bs < nat v")
      case True
      with direct assms have "p = ParseError (b # bs)" "rest = []"
        by (simp_all add: next_op_def v_def [symmetric])
      then show ?thesis by simp
    next
      case False
      with direct assms have "p = Push v (take (nat v) bs)" "rest = drop (nat v) bs"
        by (simp_all add: next_op_def v_def [symmetric])
      with direct b show ?thesis by simp
    qed
  next
    case p1
    with assms have "read_push v 1 (b # bs) bs = (p, rest)"
      by (simp add: next_op_def v_def [symmetric])
    from read_push_toRaw [OF this b] p1 show ?thesis by simp
  next
    case p2
    with assms have "read_push v 2 (b # bs) bs = (p, rest)"
      by (simp add: next_op_def v_def [symmetric])
    from read_push_toRaw [OF this b] p2 show ?thesis by simp
  next
    case p4
    with assms have "read_push v 4 (b # bs) bs = (p, rest)"
      by (simp add: next_op_def v_def [symmetric])
    from read_push_toRaw [OF this b] p4 show ?thesis by simp
  next
    case other
    then have "\<not> (1 \<le> v \<and> v \<le> 0x4b)" "v \<noteq> 0x4c" "v \<noteq> 0x4d" "v \<noteq> 0x4e"
      by linarith+
    with assms have "p = Opcode v" "rest = bs"
      by (simp_all add: next_op_def v_def [symmetric])
    with b show ?thesis by simp
  qed
qed

lemma serialize_parse: "serialize (parse raw) = raw"
proof (induction raw rule: parse.induct)
  case 1
  then show ?case by (simp add: serialize_def)
next
  case (2 b bs)
  obtain p rest where n: "next_op b bs = (p, rest)" by (cases "next_op b bs")
  from 2 [OF n [symmetric]] have "serialize (parse rest) = rest" .
  with next_op_serialize [OF n] n show ?case
    by (simp add: serialize_def)
qed

lemma read_push_wf:
  assumes "read_push v k whole bs = (p, rest)"
    and "(v = 0x4c \<and> k = 1) \<or> (v = 0x4d \<and> k = 2) \<or> (v = 0x4e \<and> k = 4)"
  shows "op_wf p \<or> is_ParseError p"
proof -
  have "read_le xs < 256 ^ length xs" for xs :: bytes
  proof (induction xs)
    case Nil
    then show ?case by simp
  next
    case (Cons x xs)
    have "unat x < 256" using unsigned_less [of x, where ?'a = nat] by simp
    with Cons show ?case by simp
  qed
  from this [of "take k bs"] have "length bs \<ge> k \<Longrightarrow> read_le (take k bs) < 256 ^ k"
    by simp
  with assms show ?thesis
    by (auto simp: read_push_def Let_def split: if_splits)
qed

lemma next_op_wf:
  assumes "next_op b bs = (p, rest)"
  shows "op_wf p \<or> is_ParseError p"
proof -
  have u: "0 \<le> uint b" "uint b \<le> 0xff"
    using unsigned_less [of b, where ?'a = int] by simp_all
  show ?thesis
  proof (cases "uint b = 0x4c \<or> uint b = 0x4d \<or> uint b = 0x4e")
    case True
    then consider "uint b = 0x4c" | "uint b = 0x4d" | "uint b = 0x4e" by blast
    then show ?thesis
    proof cases
      case 1
      with assms have "read_push 0x4c 1 (b # bs) bs = (p, rest)" by (simp add: next_op_def)
      then show ?thesis by (rule read_push_wf) simp
    next
      case 2
      with assms have "read_push 0x4d 2 (b # bs) bs = (p, rest)" by (simp add: next_op_def)
      then show ?thesis by (rule read_push_wf) simp
    next
      case 3
      with assms have "read_push 0x4e 4 (b # bs) bs = (p, rest)" by (simp add: next_op_def)
      then show ?thesis by (rule read_push_wf) simp
    qed
  next
    case False
    with assms u show ?thesis
      by (auto simp: next_op_def Let_def split: if_splits)
  qed
qed

lemma parse_ops: "p \<in> set (parse raw) \<Longrightarrow> op_wf p \<or> is_ParseError p"
proof (induction raw rule: parse.induct)
  case 1
  then show ?case by simp
next
  case (2 b bs)
  obtain q rest where n: "next_op b bs = (q, rest)" by (cases "next_op b bs")
  with 2 next_op_wf [OF n] show ?case by auto
qed

lemma pushData_wf:
  assumes "wellformed s" and "length d < 2 ^ 32"
  shows "wellformed (pushData d s)"
  using assms by (auto simp: wellformed_def pushData_def push_value_def)

text \<open>
  C8. For every well-formed script \<open>s\<close>, parsing the serialization of \<open>s\<close> yields \<open>s\<close>
  back: \<open>fromRaw (toRaw s) = s\<close>.
\<close>

theorem fromRaw_toRaw:
  assumes "wellformed s"
  shows "fromRaw (toRaw s) = s"
  using assms by (simp add: fromRaw_def toRaw_def parse_serialize)

theorem fromRaw_toRaw_witness:
  "wellformed [Push 2 [1, 2], Opcode 0x87, Push 0x4c [], Push 0x4d [7]]
   \<and> fromRaw (toRaw [Push 2 [1, 2], Opcode 0x87, Push 0x4c [], Push 0x4d [7]])
       = [Push 2 [1, 2], Opcode 0x87, Push 0x4c [], Push 0x4d [7]]"
proof -
  have wf: "wellformed [Push 2 [1, 2], Opcode 0x87, Push 0x4c [], Push 0x4d [7]]"
    by (simp add: wellformed_def)
  from wf fromRaw_toRaw [OF wf] show ?thesis by simp
qed

section \<open>The oracle is only consulted and logged\<close>

text \<open>
  C3. \<^verbatim>\<open>verifyConsensus\<close> calls the oracle with the raw transaction bytes, the input
  index, the raw bytes of the previous output script, the amount and the flags it was
  given, and returns the oracle's code unchanged. Without an oracle it returns \<^verbatim>\<open>'OK'\<close>
  for every input, and \<^verbatim>\<open>assertConsensus\<close> does nothing.
\<close>

theorem verifyConsensus_oracle:
  "(consensus env = Some consensus_verify \<longrightarrow>
      verifyConsensus env tx index output amount flags
        = consensus_verify (tx_toRaw env tx) index (toRaw output) amount flags)
   \<and> (consensus env = None \<longrightarrow>
      verifyConsensus env tx index output amount flags = ''OK''
      \<and> assertConsensus env tx output flags code w = w)"
proof (cases "consensus env")
  case None
  then show ?thesis
    by (simp add: verifyConsensus_def assertConsensus_def)
next
  case (Some v)
  then show ?thesis
    by (simp add: verifyConsensus_def)
qed

theorem verifyConsensus_oracle_witness:
  "verifyConsensus (lib0\<lparr>consensus := Some (\<lambda>rt i ro v f. if i = 7 \<and> v = 5 then ''EVAL_FALSE'' else ''OK'')\<rparr>)
     (TX_new lib0) 7 [Opcode 0x87] 5 1 = ''EVAL_FALSE''
   \<and> verifyConsensus lib0 (TX_new lib0) 7 [Opcode 0x87] 5 1 = ''OK''
   \<and> assertConsensus lib0 (TX_new lib0) [Opcode 0x87] 1 (Some ''EVAL_FALSE'') world0 = world0"
  using verifyConsensus_oracle [of "lib0\<lparr>consensus := Some (\<lambda>rt i ro v f. if i = 7 \<and> v = 5 then ''EVAL_FALSE'' else ''OK'')\<rparr>"
      "\<lambda>rt i ro v f. if i = 7 \<and> v = 5 then ''EVAL_FALSE'' else ''OK''" "TX_new lib0" 7 "[Opcode 0x87]" 5 1]
    verifyConsensus_oracle [of lib0 "\<lambda>rt i ro v f. ''OK''" "TX_new lib0" 7 "[Opcode 0x87]" 5 1
      "Some ''EVAL_FALSE''" world0]
  by (simp add: lib0_def)

text \<open>
  C2. When the oracle's code differs from the code of the local engine,
  \<^verbatim>\<open>assertConsensus\<close> writes the seven lines that describe the mismatch and returns: the
  world it leaves is the world it found with those lines appended to the console, for every
  transaction, output script, flag set and code.
\<close>

theorem assertConsensus_mismatch:
  assumes "consensus env = Some consensus_verify"
    and "err = consensus_verify (tx_toRaw env tx) 0 (toRaw output) 0 flags"
    and "Some err \<noteq> code"
  shows "assertConsensus env tx output flags code w =
           w\<lparr>console := console w @
             [[LStr ''bitcoinconsensus mismatch!''],
              [LStr (err @ '' (bitcoin core) !== '' @ js_string code @ '' (bcoin)'')],
              [LTx tx],
              [LScript output],
              [LFlags flags],
              [LStr ''TX: %s'', LStr (toString_hex (tx_toRaw env tx))],
              [LStr ''Output Script: %s'', LStr (toString_hex (toRaw output))]]\<rparr>"
  using assms
  by (simp add: assertConsensus_def verifyConsensus_def util_log_def Let_def)

theorem assertConsensus_mismatch_witness:
  "assertConsensus (lib0\<lparr>consensus := Some (\<lambda>rt i ro v f. ''EVAL_FALSE'')\<rparr>)
       (TX_new lib0) [Opcode 0x87] 1 (Some ''OK'') world0 =
     world0\<lparr>console :=
       [[LStr ''bitcoinconsensus mismatch!''],
        [LStr ''EVAL_FALSE (bitcoin core) !== OK (bcoin)''],
        [LTx (TX_new lib0)],
        [LScript [Opcode 0x87]],
        [LFlags 1],
        [LStr ''TX: %s'', LStr []],
        [LStr ''Output Script: %s'', LStr ''87'']]\<rparr>"
  using assertConsensus_mismatch [of "lib0\<lparr>consensus := Some (\<lambda>rt i ro v f. ''EVAL_FALSE'')\<rparr>"
      "\<lambda>rt i ro v f. ''EVAL_FALSE''" "''EVAL_FALSE''" "TX_new lib0" "[Opcode 0x87]" 1 "Some ''OK''" world0]
  by (simp add: lib0_def world0_def js_string_def toString_hex_def hex_digit_def toRaw_def serialize_def)

section \<open>The generators return\<close>

text \<open>
  A draw of \<^verbatim>\<open>util.random(min, max)\<close> lies in \<open>[min, max)\<close>, so no \<^verbatim>\<open>switch\<close> of the
  generators falls through to its \<^verbatim>\<open>throw new Error()\<close>.
\<close>

lemma util_random_range:
  assumes "lo < hi" and "util_random lo hi g = (r, g1)"
  shows "lo \<le> r \<and> r < hi"
proof -
  from assms have r: "r = lo + int (g 0) mod (hi - lo)"
    by (auto simp: util_random_def draw_def)
  from assms(1) have "0 \<le> int (g 0) mod (hi - lo)" "int (g 0) mod (hi - lo) < hi - lo"
    by simp_all
  with r show ?thesis by simp
qed

lemma randomRedeem_returns: "\<exists>s g1. randomRedeem env g = Inr (s, g1)"
proof -
  obtain r g0 where u: "util_random 0 5 g = (r, g0)" by (cases "util_random 0 5 g")
  from util_random_range [OF _ u] have "r = 0 \<or> r = 1 \<or> r = 2 \<or> r = 3 \<or> r = 4" by auto
  then show ?thesis
    unfolding randomRedeem_def u by (auto simp: prod_eq_iff)
qed

lemma randomScript_returns: "\<exists>s g1. randomScript env g = Inr (s, g1)"
proof -
  obtain r g0 where u: "util_random 0 7 g = (r, g0)" by (cases "util_random 0 7 g")
  from util_random_range [OF _ u]
  have "r = 0 \<or> r = 1 \<or> r = 2 \<or> r = 3 \<or> r = 4 \<or> r = 5 \<or> r = 6" by auto
  then show ?thesis
    unfolding randomScript_def u by (auto simp: prod_eq_iff)
qed

lemma randomOutput_returns: "\<exists>out g1. randomOutput env g = Inr (out, g1)"
proof -
  obtain s g0 where "randomScript env g = Inr (s, g0)"
    using randomScript_returns by blast
  then show ?thesis
    by (simp add: randomOutput_def split: prod.split)
qed

lemma randomTX_outputs_returns: "\<exists>tx1 g1. randomTX_outputs env n tx g = Inr (tx1, g1)"
proof (induction n arbitrary: tx g)
  case 0
  then show ?case by simp
next
  case (Suc n)
  obtain out g0 where "randomOutput env g = Inr (out, g0)"
    using randomOutput_returns by blast
  with Suc show ?case by simp
qed

lemma randomTX_outputs_not_Inl: "randomTX_outputs env n tx g \<noteq> Inl e"
  using randomTX_outputs_returns [of env n tx g] by auto

lemma randomTX_not_Inl: "randomTX env g \<noteq> Inl e"
  by (simp add: randomTX_def Let_def randomTX_outputs_not_Inl split: prod.split sum.split)

lemma randomTX_returns: "\<exists>tx g1. randomTX env g = Inr (tx, g1)"
  using randomTX_not_Inl [of env g] by (cases "randomTX env g") auto

lemma count_pass_not_Inl: "count_pass env tx0 total0 w0 \<noteq> Inl x"
  by (simp add: count_pass_def Let_def randomTX_not_Inl split: prod.split sum.split)

lemma count_pass_returns: "\<exists>tx total1 w. count_pass env tx0 total0 w0 = Inr (tx, total1, w)"
  using count_pass_not_Inl [of env tx0 total0 w0] by (cases "count_pass env tx0 total0 w0") auto

lemma randomRedeem_not_Inl: "randomRedeem env g \<noteq> Inl e"
  using randomRedeem_returns [of env g] by auto

lemma randomContext_Inl:
  "randomContext env g = Inl e \<Longrightarrow> etype e = None"
  by (auto simp: randomContext_def randomScripthashContext_def randomWitnessScripthashContext_def
      randomWitnessNestedContext_def Error_new_def Let_def randomRedeem_not_Inl
      split: prod.splits if_splits sum.splits)

lemma randomContext_returns: "\<exists>c g1. randomContext env g = Inr (c, g1)"
proof -
  obtain r g0 where u: "util_random 0 6 g = (r, g0)" by (cases "util_random 0 6 g")
  from util_random_range [OF _ u]
  have "r = 0 \<or> r = 1 \<or> r = 2 \<or> r = 3 \<or> r = 4 \<or> r = 5" by auto
  moreover obtain s g1 where "randomRedeem env g0 = Inr (s, g1)"
    using randomRedeem_returns by blast
  ultimately show ?thesis
    unfolding randomContext_def u
    by (auto simp: prod_eq_iff randomScripthashContext_def randomWitnessScripthashContext_def
        randomWitnessNestedContext_def Let_def split: prod.splits)
qed

section \<open>One pass of each loop\<close>

lemma isPushOnly_loop_iff:
  "isPushOnly_loop env ps \<longleftrightarrow>
     (\<forall>p \<in> set ps. op_value p = NOP env \<or> op_value p = NOP_1 env \<or> op_value p > NOP_3 env)"
  by (induction ps) auto

lemma fuzzSimple_pass_unfold:
  assumes "count_pass env tx0 total0 w0 = Inr (tx, total1, w)"
    and "randomInputScript None (rng w) = (i, g1)"
    and "randomOutputScript g1 = (out, g2)"
  shows "fuzzSimple_pass env flags tx0 total0 w0 =
     (case execute env i Stack_new flags tx 0 0 0 of
        Inl e \<Rightarrow>
          if etype e = Some ''ScriptError'' then Continue tx total1 (w\<lparr>rng := g1\<rparr>)
          else Throw e (w\<lparr>rng := g1\<rparr>)
      | Inr stack1 \<Rightarrow>
          (case execute env out stack1 flags tx 0 0 0 of
             Inl e \<Rightarrow>
               if etype e = Some ''ScriptError'' then Continue tx total1 (w\<lparr>rng := g2\<rparr>)
               else Throw e (w\<lparr>rng := g2\<rparr>)
           | Inr stack2 \<Rightarrow>
               if stack2 = [] \<or> \<not> getBool env stack2 (- 1) \<or> isPushOnly env out
               then Continue tx total1 (w\<lparr>rng := g2\<rparr>)
               else Break (report_simple i out stack2 (w\<lparr>rng := g2\<rparr>))))"
  using assms by (simp add: fuzzSimple_pass_def Let_def split: sum.split)

lemma fuzzVerify_pass_unfold:
  assumes "count_pass env tx0 total0 w0 = Inr (tx, total1, w)"
    and "randomInputScript None (rng w) = (i, g1)"
    and "randomWitness None g1 = (wit, g2)"
    and "randomOutputScript g2 = (out, g3)"
    and "inputs tx = first # others"
    and "tx3 = refresh env (tx\<lparr>inputs := first\<lparr>in_script := i, in_witness := wit\<rparr> # others\<rparr>)"
  shows "fuzzVerify_pass env flags tx0 total0 w0 =
     (case verify env i wit out tx3 0 0 flags of
        Inl e \<Rightarrow>
          if etype e = Some ''ScriptError''
          then Continue tx3 total1 (assertConsensus env tx3 out flags (ecode e) (w\<lparr>rng := g3\<rparr>))
          else Throw e (w\<lparr>rng := g3\<rparr>)
      | Inr u \<Rightarrow>
          if isPushOnly env out
          then Continue tx3 total1 (assertConsensus env tx3 out flags (Some ''OK'') (w\<lparr>rng := g3\<rparr>))
          else Break (report_verify i wit out
                 (assertConsensus env tx3 out flags (Some ''OK'') (w\<lparr>rng := g3\<rparr>))))"
  using assms by (simp add: fuzzVerify_pass_def Let_def split: sum.split)

lemma fuzzLess_pass_unfold:
  assumes "count_pass env tx0 total0 w0 = Inr (tx, total1, w)"
    and "randomContext env (rng w) = Inr (c, g1)"
    and "inputs tx = first # others"
    and "tx3 = refresh env (tx\<lparr>inputs := first\<lparr>in_script := ctx_input c, in_witness := ctx_witness c\<rparr> # others\<rparr>)"
  shows "fuzzLess_pass env flags tx0 total0 w0 =
     (case verify env (ctx_input c) (ctx_witness c) (ctx_output c) tx3 0 0 flags of
        Inl e \<Rightarrow>
          if etype e = Some ''ScriptError''
          then Continue tx3 total1 (assertConsensus env tx3 (ctx_output c) flags (ecode e) (w\<lparr>rng := g1\<rparr>))
          else Throw e (w\<lparr>rng := g1\<rparr>)
      | Inr u \<Rightarrow>
          Break (report_less c
                 (assertConsensus env tx3 (ctx_output c) flags (Some ''OK'') (w\<lparr>rng := g1\<rparr>))))"
  using assms by (simp add: fuzzLess_pass_def Let_def split: sum.split)

text \<open>
  The opening of a pass adds one to the counter and writes at most the line of the counter;
  a report is the world with its lines appended and nothing else changed; and
  \<^verbatim>\<open>assertConsensus\<close> with the code \<^verbatim>\<open>'OK'\<close> leaves the generator alone and writes the lines
  of a mismatch or nothing.
\<close>

lemma count_pass_console:
  assumes "count_pass env tx0 total0 w0 = Inr (tx, total1, w)"
  shows "total1 = total0 + 1
         \<and> console w = console w0 @
              (if (total0 + 1) mod 1000 = 0
               then [[LStr ''Fuzzed %d scripts.'', LNum (total0 + 1)]] else [])"
  using assms
  by (auto simp: count_pass_def Let_def util_log_def split: if_splits sum.splits prod.splits)

lemma report_simple_eq:
  "report_simple i out stack w =
     w\<lparr>console := console w @
        [[LStr ''Produced valid scripts:''], [LStr ''Input:''], [LScript i],
         [LStr ''Output:''], [LScript out], [LStr ''Stack:''], [LStack stack]]\<rparr>"
  by (simp add: report_simple_def util_log_def)

lemma report_verify_eq:
  "report_verify i wit out w =
     w\<lparr>console := console w @
        [[LStr ''Produced valid scripts:''], [LStr ''Input:''], [LScript i],
         [LStr ''Witness:''], [LWitness wit], [LStr ''Output:''], [LScript out]]\<rparr>"
  by (simp add: report_verify_def util_log_def)

lemma assertConsensus_OK:
  "rng (assertConsensus env tx out flags (Some ''OK'') w) = rng w
   \<and> console (assertConsensus env tx out flags (Some ''OK'') w) =
       console w @
         (case consensus env of
            None \<Rightarrow> []
          | Some consensus_verify \<Rightarrow>
              if consensus_verify (tx_toRaw env tx) 0 (toRaw out) 0 flags = ''OK'' then []
              else [[LStr ''bitcoinconsensus mismatch!''],
                    [LStr (consensus_verify (tx_toRaw env tx) 0 (toRaw out) 0 flags
                           @ '' (bitcoin core) !== OK (bcoin)'')],
                    [LTx tx],
                    [LScript out],
                    [LFlags flags],
                    [LStr ''TX: %s'', LStr (toString_hex (tx_toRaw env tx))],
                    [LStr ''Output Script: %s'', LStr (toString_hex (toRaw out))]])"
  by (simp add: assertConsensus_def verifyConsensus_def util_log_def js_string_def Let_def
      split: option.split)

lemmas generator_defs =
  util_random_def draw_def randomBytes_def randomInputScript_def randomInputScript_push_def
  randomWitness_def randomWitness_push_def randomOutputScript_def
  Script_write_def Script_new_def Witness_new_def Stack_new_def pushData_def compile_def
  push_value_def fromRaw_def next_op_def read_push_def Let_def

section \<open>The push-only filter of the harness\<close>

lemma isPushOnly_iff:
  "isPushOnly env s \<longleftrightarrow>
     Script_isPushOnly env s
     \<or> (\<forall>p \<in> set (values s). op_value p = NOP env \<or> op_value p = NOP_1 env \<or> op_value p > NOP_3 env)"
  by (simp add: isPushOnly_def isPushOnly_loop_iff)

lemma fuzzSimple_pass_filter:
  assumes "count_pass env tx0 total0 w0 = Inr (tx, total1, w)"
    and "randomInputScript None (rng w) = (i, g1)"
    and "randomOutputScript g1 = (out, g2)"
    and "execute env i Stack_new flags tx 0 0 0 = Inr stack1"
    and "execute env out stack1 flags tx 0 0 0 = Inr stack2"
    and "stack2 \<noteq> []" and "getBool env stack2 (- 1)"
  shows "fuzzSimple_pass env flags tx0 total0 w0 =
           (if isPushOnly env out then Continue tx total1 (w\<lparr>rng := g2\<rparr>)
            else Break (w\<lparr>rng := g2, console := console w @
                   [[LStr ''Produced valid scripts:''], [LStr ''Input:''], [LScript i],
                    [LStr ''Output:''], [LScript out], [LStr ''Stack:''], [LStack stack2]]\<rparr>))"
  unfolding fuzzSimple_pass_unfold [OF assms(1-3)] report_simple_eq
  using assms(4-7) by simp

lemma fuzzVerify_pass_filter:
  assumes "count_pass env tx0 total0 w0 = Inr (tx, total1, w)"
    and "randomInputScript None (rng w) = (i, g1)"
    and "randomWitness None g1 = (wit, gw)"
    and "randomOutputScript gw = (vout, g3)"
    and "inputs tx = first # others"
    and "tx3 = refresh env (tx\<lparr>inputs := first\<lparr>in_script := i, in_witness := wit\<rparr> # others\<rparr>)"
    and "verify env i wit vout tx3 0 0 flags = Inr u"
    and "wv = assertConsensus env tx3 vout flags (Some ''OK'') (w\<lparr>rng := g3\<rparr>)"
  shows "fuzzVerify_pass env flags tx0 total0 w0 =
           (if isPushOnly env vout then Continue tx3 total1 wv
            else Break (wv\<lparr>console := console wv @
                   [[LStr ''Produced valid scripts:''], [LStr ''Input:''], [LScript i],
                    [LStr ''Witness:''], [LWitness wit], [LStr ''Output:''], [LScript vout]]\<rparr>))"
  unfolding fuzzVerify_pass_unfold [OF assms(1-6)] assms(7) report_verify_eq assms(8)
  by simp

text \<open>
  C10. The harness's \<^verbatim>\<open>isPushOnly\<close> accepts every script that \<^verbatim>\<open>Script.isPushOnly\<close>
  accepts and, besides, every script each of whose operations is \<^verbatim>\<open>NOP\<close>, \<^verbatim>\<open>NOP_1\<close> or
  an opcode greater than \<^verbatim>\<open>NOP_3\<close>, and no other script; it accepts strictly more than
  \<^verbatim>\<open>Script.isPushOnly\<close> exactly when \<^verbatim>\<open>Script.isPushOnly\<close> rejects some script made of such
  operations: a lone \<^verbatim>\<open>NOP\<close> is always accepted by the harness, so it is enough that
  \<^verbatim>\<open>Script.isPushOnly\<close> rejects it. After a successful execution with a true top of
  stack (\<^verbatim>\<open>fuzzSimple\<close>) and after a successful verification (\<^verbatim>\<open>fuzzVerify\<close>) the pass
  continues and writes no report exactly when this predicate accepts the output script, and
  otherwise appends the seven lines of its report to the console and breaks. In
  \<^verbatim>\<open>fuzzVerify\<close> the only lines written before that are those of an oracle mismatch.
\<close>

theorem isPushOnly_weaker:
  "(isPushOnly env s \<longleftrightarrow>
      Script_isPushOnly env s
      \<or> (\<forall>p \<in> set (values s). op_value p = NOP env \<or> op_value p = NOP_1 env \<or> op_value p > NOP_3 env))
   \<and> (Script_isPushOnly env s \<longrightarrow> isPushOnly env s)
   \<and> ((\<exists>x. isPushOnly env x \<and> \<not> Script_isPushOnly env x)
        \<longleftrightarrow> (\<exists>x. \<not> Script_isPushOnly env x
                 \<and> (\<forall>p \<in> set (values x). op_value p = NOP env \<or> op_value p = NOP_1 env
                                           \<or> op_value p > NOP_3 env)))
   \<and> isPushOnly env [Opcode (NOP env)]
   \<and> (\<not> Script_isPushOnly env [Opcode (NOP env)] \<longrightarrow>
         (\<exists>x. isPushOnly env x \<and> \<not> Script_isPushOnly env x))
   \<and> (count_pass env tx0 total0 w0 = Inr (tx, total1, w)
        \<and> randomInputScript None (rng w) = (i, g1)
        \<and> randomOutputScript g1 = (out, g2)
        \<and> execute env i Stack_new flags tx 0 0 0 = Inr stack1
        \<and> execute env out stack1 flags tx 0 0 0 = Inr stack2
        \<and> stack2 \<noteq> [] \<and> getBool env stack2 (- 1)
      \<longrightarrow> fuzzSimple_pass env flags tx0 total0 w0 =
            (if isPushOnly env out then Continue tx total1 (w\<lparr>rng := g2\<rparr>)
             else Break (w\<lparr>rng := g2, console := console w @
                    [[LStr ''Produced valid scripts:''], [LStr ''Input:''], [LScript i],
                     [LStr ''Output:''], [LScript out], [LStr ''Stack:''], [LStack stack2]]\<rparr>)))
   \<and> (count_pass env tx0 total0 w0 = Inr (tx, total1, w)
        \<and> randomInputScript None (rng w) = (i, g1)
        \<and> randomWitness None g1 = (wit, gw)
        \<and> randomOutputScript gw = (vout, g3)
        \<and> inputs tx = first # others
        \<and> tx3 = refresh env (tx\<lparr>inputs := first\<lparr>in_script := i, in_witness := wit\<rparr> # others\<rparr>)
        \<and> verify env i wit vout tx3 0 0 flags = Inr u
        \<and> wv = assertConsensus env tx3 vout flags (Some ''OK'') (w\<lparr>rng := g3\<rparr>)
      \<longrightarrow> fuzzVerify_pass env flags tx0 total0 w0 =
            (if isPushOnly env vout then Continue tx3 total1 wv
             else Break (wv\<lparr>console := console wv @
                    [[LStr ''Produced valid scripts:''], [LStr ''Input:''], [LScript i],
                     [LStr ''Witness:''], [LWitness wit], [LStr ''Output:''], [LScript vout]]\<rparr>))
          \<and> rng wv = g3
          \<and> console wv =
              console w @
                (case consensus env of
                   None \<Rightarrow> []
                 | Some consensus_verify \<Rightarrow>
                     if consensus_verify (tx_toRaw env tx3) 0 (toRaw vout) 0 flags = ''OK'' then []
                     else [[LStr ''bitcoinconsensus mismatch!''],
                           [LStr (consensus_verify (tx_toRaw env tx3) 0 (toRaw vout) 0 flags
                                  @ '' (bitcoin core) !== OK (bcoin)'')],
                           [LTx tx3],
                           [LScript vout],
                           [LFlags flags],
                           [LStr ''TX: %s'', LStr (toString_hex (tx_toRaw env tx3))],
                           [LStr ''Output Script: %s'', LStr (toString_hex (toRaw vout))]]))"
proof (intro conjI impI)
  show "isPushOnly env s \<longleftrightarrow>
      Script_isPushOnly env s
      \<or> (\<forall>p \<in> set (values s). op_value p = NOP env \<or> op_value p = NOP_1 env \<or> op_value p > NOP_3 env)"
    by (rule isPushOnly_iff)
next
  assume "Script_isPushOnly env s"
  then show "isPushOnly env s" by (simp add: isPushOnly_iff)
next
  show "(\<exists>x. isPushOnly env x \<and> \<not> Script_isPushOnly env x)
        \<longleftrightarrow> (\<exists>x. \<not> Script_isPushOnly env x
                 \<and> (\<forall>p \<in> set (values x). op_value p = NOP env \<or> op_value p = NOP_1 env
                                           \<or> op_value p > NOP_3 env))"
    unfolding isPushOnly_iff by blast
next
  show n: "isPushOnly env [Opcode (NOP env)]"
    by (simp add: isPushOnly_iff values_def)
  assume "\<not> Script_isPushOnly env [Opcode (NOP env)]"
  with n show "\<exists>x. isPushOnly env x \<and> \<not> Script_isPushOnly env x"
    by blast
next
  assume "count_pass env tx0 total0 w0 = Inr (tx, total1, w)
        \<and> randomInputScript None (rng w) = (i, g1)
        \<and> randomOutputScript g1 = (out, g2)
        \<and> execute env i Stack_new flags tx 0 0 0 = Inr stack1
        \<and> execute env out stack1 flags tx 0 0 0 = Inr stack2
        \<and> stack2 \<noteq> [] \<and> getBool env stack2 (- 1)"
  then show "fuzzSimple_pass env flags tx0 total0 w0 =
            (if isPushOnly env out then Continue tx total1 (w\<lparr>rng := g2\<rparr>)
             else Break (w\<lparr>rng := g2, console := console w @
                    [[LStr ''Produced valid scripts:''], [LStr ''Input:''], [LScript i],
                     [LStr ''Output:''], [LScript out], [LStr ''Stack:''], [LStack stack2]]\<rparr>))"
    by (elim conjE) (rule fuzzSimple_pass_filter)
next
  assume a: "count_pass env tx0 total0 w0 = Inr (tx, total1, w)
        \<and> randomInputScript None (rng w) = (i, g1)
        \<and> randomWitness None g1 = (wit, gw)
        \<and> randomOutputScript gw = (vout, g3)
        \<and> inputs tx = first # others
        \<and> tx3 = refresh env (tx\<lparr>inputs := first\<lparr>in_script := i, in_witness := wit\<rparr> # others\<rparr>)
        \<and> verify env i wit vout tx3 0 0 flags = Inr u
        \<and> wv = assertConsensus env tx3 vout flags (Some ''OK'') (w\<lparr>rng := g3\<rparr>)"
  then show "fuzzVerify_pass env flags tx0 total0 w0 =
            (if isPushOnly env vout then Continue tx3 total1 wv
             else Break (wv\<lparr>console := console wv @
                    [[LStr ''Produced valid scripts:''], [LStr ''Input:''], [LScript i],
                     [LStr ''Witness:''], [LWitness wit], [LStr ''Output:''], [LScript vout]]\<rparr>))"
    by (elim conjE) (rule fuzzVerify_pass_filter)
  from a have wv: "wv = assertConsensus env tx3 vout flags (Some ''OK'') (w\<lparr>rng := g3\<rparr>)"
    by blast
  show "rng wv = g3"
    unfolding wv using assertConsensus_OK [of env tx3 vout flags "w\<lparr>rng := g3\<rparr>"] by simp
  show "console wv =
              console w @
                (case consensus env of
                   None \<Rightarrow> []
                 | Some consensus_verify \<Rightarrow>
                     if consensus_verify (tx_toRaw env tx3) 0 (toRaw vout) 0 flags = ''OK'' then []
                     else [[LStr ''bitcoinconsensus mismatch!''],
                           [LStr (consensus_verify (tx_toRaw env tx3) 0 (toRaw vout) 0 flags
                                  @ '' (bitcoin core) !== OK (bcoin)'')],
                           [LTx tx3],
                           [LScript vout],
                           [LFlags flags],
                           [LStr ''TX: %s'', LStr (toString_hex (tx_toRaw env tx3))],
                           [LStr ''Output Script: %s'', LStr (toString_hex (toRaw vout))]])"
    unfolding wv using assertConsensus_OK [of env tx3 vout flags "w\<lparr>rng := g3\<rparr>"] by simp
qed

theorem isPushOnly_weaker_witness:
  "isPushOnly lib0 [Opcode 0x61] \<and> \<not> Script_isPushOnly lib0 [Opcode 0x61]
   \<and> (\<exists>x. isPushOnly lib0 x \<and> \<not> Script_isPushOnly lib0 x)
   \<and> (\<exists>g. fuzzSimple_pass lib_accept 1 tx_one 0 (world0\<lparr>rng := (\<lambda>i. if i = 3 then 0x87 else 0)\<rparr>)
            = Break \<lparr>rng = g, console =
                [[LStr ''Produced valid scripts:''], [LStr ''Input:''], [LScript [Push 0x4c []]],
                 [LStr ''Output:''], [LScript [Opcode 0x87]], [LStr ''Stack:''],
                 [LStack [[1], [1]]]]\<rparr>)
   \<and> (\<exists>g. fuzzSimple_pass lib_accept 1 tx_one 0 world0 = Continue tx_one 1 \<lparr>rng = g, console = []\<rparr>)
   \<and> (\<exists>g tx'. fuzzVerify_pass lib_accept 1 tx_one 0 (world0\<lparr>rng := (\<lambda>i. if i = 5 then 0x87 else 0)\<rparr>)
            = Break \<lparr>rng = g, console =
                [[LStr ''Produced valid scripts:''], [LStr ''Input:''], [LScript [Push 0x4c []]],
                 [LStr ''Witness:''], [LWitness [[]]], [LStr ''Output:''],
                 [LScript [Opcode 0x87]]]\<rparr>)
   \<and> (\<exists>g tx'. fuzzVerify_pass lib_accept 1 tx_one 0 world0 = Continue tx' 1 \<lparr>rng = g, console = []\<rparr>
          \<and> in_script (hd (inputs tx')) = [Push 0x4c []])
   \<and> (\<exists>g tx'. fuzzVerify_pass (lib_accept\<lparr>consensus := Some (\<lambda>rt i ro v f. ''EVAL_FALSE'')\<rparr>) 1 tx_one 0
              (world0\<lparr>rng := (\<lambda>i. if i = 5 then 0x87 else 0)\<rparr>)
            = Break \<lparr>rng = g, console =
                [[LStr ''bitcoinconsensus mismatch!''],
                 [LStr ''EVAL_FALSE (bitcoin core) !== OK (bcoin)''],
                 [LTx tx'],
                 [LScript [Opcode 0x87]],
                 [LFlags 1],
                 [LStr ''TX: %s'', LStr ''01''],
                 [LStr ''Output Script: %s'', LStr ''87''],
                 [LStr ''Produced valid scripts:''], [LStr ''Input:''], [LScript [Push 0x4c []]],
                 [LStr ''Witness:''], [LWitness [[]]], [LStr ''Output:''],
                 [LScript [Opcode 0x87]]]\<rparr>)"
proof -
  define gA :: rng where "gA = (\<lambda>i. if i = 3 then 0x87 else 0)"
  define wA where "wA = world0\<lparr>rng := gA\<rparr>"
  define gV :: rng where "gV = (\<lambda>i. if i = 5 then 0x87 else 0)"
  define wV where "wV = world0\<lparr>rng := gV\<rparr>"
  define lib_mismatch where
    "lib_mismatch = lib_accept\<lparr>consensus := Some (\<lambda>rt i ro v f. ''EVAL_FALSE'')\<rparr>"
  define tx_in where
    "tx_in = tx_one\<lparr>inputs := [(hd (inputs tx_one))\<lparr>in_script := [Push 0x4c []], in_witness := [[]]\<rparr>]\<rparr>"
  have p: "isPushOnly lib0 [Opcode 0x61] \<and> \<not> Script_isPushOnly lib0 [Opcode 0x61]"
    using isPushOnly_weaker [where env = lib0, THEN conjunct2, THEN conjunct2, THEN conjunct2,
        THEN conjunct1]
    by (simp add: lib0_def values_def)
  have p': "\<exists>x. isPushOnly lib0 x \<and> \<not> Script_isPushOnly lib0 x"
    using isPushOnly_weaker [where env = lib0, THEN conjunct2, THEN conjunct2, THEN conjunct2,
        THEN conjunct2, THEN conjunct1]
    by (simp add: lib0_def)
  have c: "count_pass lib_accept tx_one 0 wA = Inr (tx_one, 1, wA)"
    and c0: "count_pass lib_accept tx_one 0 world0 = Inr (tx_one, 1, world0)"
    and cV: "count_pass lib_accept tx_one 0 wV = Inr (tx_one, 1, wV)"
    and cM: "count_pass lib_mismatch tx_one 0 wV = Inr (tx_one, 1, wV)"
    by (simp_all add: count_pass_def)
  obtain g1 g2 where r: "randomInputScript None (rng wA) = ([Push 0x4c []], g1)"
      "randomOutputScript g1 = ([Opcode 0x87], g2)"
  proof -
    have "\<exists>g1 g2. randomInputScript None (rng wA) = ([Push 0x4c []], g1)
        \<and> randomOutputScript g1 = ([Opcode 0x87], g2)"
      by (simp add: wA_def gA_def generator_defs)
    then show ?thesis using that by blast
  qed
  obtain h1 h2 h3 k3 where q: "randomInputScript None (rng world0) = ([Push 0x4c []], h1)"
      "randomWitness None h1 = ([[]], h2)" "randomOutputScript h2 = ([Opcode 0], h3)"
      "randomOutputScript h1 = ([Opcode 0], k3)"
  proof -
    have "\<exists>h1 h2 h3 k3. randomInputScript None (rng world0) = ([Push 0x4c []], h1)
        \<and> randomWitness None h1 = ([[]], h2) \<and> randomOutputScript h2 = ([Opcode 0], h3)
        \<and> randomOutputScript h1 = ([Opcode 0], k3)"
      by (simp add: world0_def generator_defs)
    then show ?thesis using that by blast
  qed
  obtain v1 v2 v3 where qv: "randomInputScript None (rng wV) = ([Push 0x4c []], v1)"
      "randomWitness None v1 = ([[]], v2)" "randomOutputScript v2 = ([Opcode 0x87], v3)"
  proof -
    have "\<exists>v1 v2 v3. randomInputScript None (rng wV) = ([Push 0x4c []], v1)
        \<and> randomWitness None v1 = ([[]], v2) \<and> randomOutputScript v2 = ([Opcode 0x87], v3)"
      by (simp add: wV_def gV_def generator_defs)
    then show ?thesis using that by blast
  qed
  have i: "inputs tx_one = hd (inputs tx_one) # []"
    by (simp add: tx_one_def)
  have s: "fuzzSimple_pass lib_accept 1 tx_one 0 wA =
      Break (wA\<lparr>rng := g2, console := console wA @
        [[LStr ''Produced valid scripts:''], [LStr ''Input:''], [LScript [Push 0x4c []]],
         [LStr ''Output:''], [LScript [Opcode 0x87]], [LStr ''Stack:''], [LStack [[1], [1]]]]\<rparr>)"
    using isPushOnly_weaker [where env = lib_accept and ?tx0.0 = tx_one and ?total0.0 = 0
        and ?w0.0 = wA and tx = tx_one and ?total1.0 = 1 and w = wA and i = "[Push 0x4c []]"
        and ?g1.0 = g1 and out = "[Opcode 0x87]" and ?g2.0 = g2 and flags = 1
        and ?stack1.0 = "[[1]]" and ?stack2.0 = "[[1], [1]]",
        THEN conjunct2, THEN conjunct2, THEN conjunct2, THEN conjunct2, THEN conjunct2,
        THEN conjunct1] c r
    by (simp add: lib_accept_def lib0_def Stack_new_def isPushOnly_def values_def)
  have s0: "fuzzSimple_pass lib_accept 1 tx_one 0 world0 = Continue tx_one 1 (world0\<lparr>rng := k3\<rparr>)"
    using isPushOnly_weaker [where env = lib_accept and ?tx0.0 = tx_one and ?total0.0 = 0
        and ?w0.0 = world0 and tx = tx_one and ?total1.0 = 1 and w = world0 and i = "[Push 0x4c []]"
        and ?g1.0 = h1 and out = "[Opcode 0]" and ?g2.0 = k3 and flags = 1
        and ?stack1.0 = "[[1]]" and ?stack2.0 = "[[1], [1]]",
        THEN conjunct2, THEN conjunct2, THEN conjunct2, THEN conjunct2, THEN conjunct2,
        THEN conjunct1] c0 q
    by (simp add: lib_accept_def lib0_def Stack_new_def isPushOnly_def values_def)
  have v: "fuzzVerify_pass lib_accept 1 tx_one 0 wV =
      Break (wV\<lparr>rng := v3, console := console wV @
        [[LStr ''Produced valid scripts:''], [LStr ''Input:''], [LScript [Push 0x4c []]],
         [LStr ''Witness:''], [LWitness [[]]], [LStr ''Output:''], [LScript [Opcode 0x87]]]\<rparr>)"
    using isPushOnly_weaker [where env = lib_accept and ?tx0.0 = tx_one and ?total0.0 = 0
        and ?w0.0 = wV and tx = tx_one and ?total1.0 = 1 and w = wV and i = "[Push 0x4c []]"
        and ?g1.0 = v1 and wit = "[[]]" and gw = v2 and vout = "[Opcode 0x87]" and ?g3.0 = v3
        and flags = 1 and first = "hd (inputs tx_one)" and others = "[]"
        and ?tx3.0 = "refresh lib_accept tx_in" and u = "()"
        and wv = "assertConsensus lib_accept (refresh lib_accept tx_in) [Opcode 0x87] 1 (Some ''OK'')
                    (wV\<lparr>rng := v3\<rparr>)",
        THEN conjunct2, THEN conjunct2, THEN conjunct2, THEN conjunct2, THEN conjunct2,
        THEN conjunct2] cV qv i
    by (simp add: lib_accept_def lib0_def isPushOnly_def values_def tx_in_def assertConsensus_def)
  have v0: "fuzzVerify_pass lib_accept 1 tx_one 0 world0 =
      Continue (refresh lib_accept tx_in) 1 (world0\<lparr>rng := h3\<rparr>)"
    using isPushOnly_weaker [where env = lib_accept and ?tx0.0 = tx_one and ?total0.0 = 0
        and ?w0.0 = world0 and tx = tx_one and ?total1.0 = 1 and w = world0 and i = "[Push 0x4c []]"
        and ?g1.0 = h1 and wit = "[[]]" and gw = h2 and vout = "[Opcode 0]" and ?g3.0 = h3
        and flags = 1 and first = "hd (inputs tx_one)" and others = "[]"
        and ?tx3.0 = "refresh lib_accept tx_in" and u = "()"
        and wv = "assertConsensus lib_accept (refresh lib_accept tx_in) [Opcode 0] 1 (Some ''OK'')
                    (world0\<lparr>rng := h3\<rparr>)",
        THEN conjunct2, THEN conjunct2, THEN conjunct2, THEN conjunct2, THEN conjunct2,
        THEN conjunct2] c0 q i
    by (simp add: lib_accept_def lib0_def isPushOnly_def values_def tx_in_def assertConsensus_def)
  define wM where
    "wM = assertConsensus lib_mismatch (refresh lib_mismatch tx_in) [Opcode 0x87] 1 (Some ''OK'')
            (wV\<lparr>rng := v3\<rparr>)"
  note tm = isPushOnly_weaker [where env = lib_mismatch and ?tx0.0 = tx_one and ?total0.0 = 0
        and ?w0.0 = wV and tx = tx_one and ?total1.0 = 1 and w = wV and i = "[Push 0x4c []]"
        and ?g1.0 = v1 and wit = "[[]]" and gw = v2 and vout = "[Opcode 0x87]" and ?g3.0 = v3
        and flags = 1 and first = "hd (inputs tx_one)" and others = "[]"
        and ?tx3.0 = "refresh lib_mismatch tx_in" and u = "()" and wv = wM,
        THEN conjunct2, THEN conjunct2, THEN conjunct2, THEN conjunct2, THEN conjunct2,
        THEN conjunct2]
  have pm: "count_pass lib_mismatch tx_one 0 wV = Inr (tx_one, 1, wV)
        \<and> randomInputScript None (rng wV) = ([Push 0x4c []], v1)
        \<and> randomWitness None v1 = ([[]], v2)
        \<and> randomOutputScript v2 = ([Opcode 0x87], v3)
        \<and> inputs tx_one = hd (inputs tx_one) # []
        \<and> refresh lib_mismatch tx_in = refresh lib_mismatch
             (tx_one\<lparr>inputs := (hd (inputs tx_one))\<lparr>in_script := [Push 0x4c []], in_witness := [[]]\<rparr> # []\<rparr>)
        \<and> verify lib_mismatch [Push 0x4c []] [[]] [Opcode 0x87] (refresh lib_mismatch tx_in) 0 0 1 = Inr ()
        \<and> wM = assertConsensus lib_mismatch (refresh lib_mismatch tx_in) [Opcode 0x87] 1 (Some ''OK'')
            (wV\<lparr>rng := v3\<rparr>)"
    using cM qv i by (simp add: wM_def tx_in_def lib_mismatch_def lib_accept_def)
  from tm [rule_format, OF pm]
  have m1: "fuzzVerify_pass lib_mismatch 1 tx_one 0 wV =
        (if isPushOnly lib_mismatch [Opcode 0x87] then Continue (refresh lib_mismatch tx_in) 1 wM
         else Break (wM\<lparr>console := console wM @
                [[LStr ''Produced valid scripts:''], [LStr ''Input:''], [LScript [Push 0x4c []]],
                 [LStr ''Witness:''], [LWitness [[]]], [LStr ''Output:''], [LScript [Opcode 0x87]]]\<rparr>))"
    and m2: "rng wM = v3"
    and m3: "console wM = console wV @
                (case consensus lib_mismatch of
                   None \<Rightarrow> []
                 | Some consensus_verify \<Rightarrow>
                     if consensus_verify (tx_toRaw lib_mismatch (refresh lib_mismatch tx_in)) 0 (toRaw [Opcode 0x87]) 0 1 = ''OK'' then []
                     else [[LStr ''bitcoinconsensus mismatch!''],
                           [LStr (consensus_verify (tx_toRaw lib_mismatch (refresh lib_mismatch tx_in)) 0 (toRaw [Opcode 0x87]) 0 1
                                  @ '' (bitcoin core) !== OK (bcoin)'')],
                           [LTx (refresh lib_mismatch tx_in)],
                           [LScript [Opcode 0x87]],
                           [LFlags 1],
                           [LStr ''TX: %s'', LStr (toString_hex (tx_toRaw lib_mismatch (refresh lib_mismatch tx_in)))],
                           [LStr ''Output Script: %s'', LStr (toString_hex (toRaw [Opcode 0x87]))]])"
    by blast+
  have np: "\<not> isPushOnly lib_mismatch [Opcode 0x87]"
    by (simp add: isPushOnly_def values_def lib_mismatch_def lib_accept_def lib0_def)
  have wMeq: "wM = \<lparr>rng = v3, console =
                [[LStr ''bitcoinconsensus mismatch!''],
                 [LStr ''EVAL_FALSE (bitcoin core) !== OK (bcoin)''],
                 [LTx tx_in],
                 [LScript [Opcode 0x87]],
                 [LFlags 1],
                 [LStr ''TX: %s'', LStr ''01''],
                 [LStr ''Output Script: %s'', LStr ''87'']]\<rparr>"
    using m2 m3
    by (cases wM)
       (simp add: wV_def world0_def lib_mismatch_def lib_accept_def lib0_def tx_in_def tx_one_def
         toString_hex_def hex_digit_def toRaw_def serialize_def)
  from m1 np wMeq have m: "fuzzVerify_pass lib_mismatch 1 tx_one 0 wV =
      Break \<lparr>rng = v3, console =
                [[LStr ''bitcoinconsensus mismatch!''],
                 [LStr ''EVAL_FALSE (bitcoin core) !== OK (bcoin)''],
                 [LTx tx_in],
                 [LScript [Opcode 0x87]],
                 [LFlags 1],
                 [LStr ''TX: %s'', LStr ''01''],
                 [LStr ''Output Script: %s'', LStr ''87''],
                 [LStr ''Produced valid scripts:''], [LStr ''Input:''], [LScript [Push 0x4c []]],
                 [LStr ''Witness:''], [LWitness [[]]], [LStr ''Output:''],
                 [LScript [Opcode 0x87]]]\<rparr>"
    by simp
  have t0: "in_script (hd (inputs (refresh lib_accept tx_in))) = [Push 0x4c []]"
    by (simp add: lib_accept_def lib0_def tx_in_def tx_one_def)
  from p p' s s0 v v0 t0 m show ?thesis
    unfolding lib_mismatch_def wA_def gA_def wV_def gV_def
    by (auto simp: world0_def)
qed

section \<open>What \<^verbatim>\<open>fuzzSimple\<close> reports\<close>

lemma console_report_simple:
  "console (report_simple i out stack w) =
     console w @ [[LStr ''Produced valid scripts:''], [LStr ''Input:''], [LScript i],
                  [LStr ''Output:''], [LScript out], [LStr ''Stack:''], [LStack stack]]"
  by (simp add: report_simple_eq)

lemma fuzzSimple_pass_Break_iff:
  assumes "count_pass env tx0 total0 w0 = Inr (tx, total1, w)"
    and "randomInputScript None (rng w) = (i, g1)"
    and "randomOutputScript g1 = (out, g2)"
  shows "fuzzSimple_pass env flags tx0 total0 w0 = Break w'
        \<longleftrightarrow> (\<exists>stack1 stack2.
               execute env i Stack_new flags tx 0 0 0 = Inr stack1
               \<and> execute env out stack1 flags tx 0 0 0 = Inr stack2
               \<and> length stack2 \<noteq> 0 \<and> getBool env stack2 (- 1) \<and> \<not> isPushOnly env out
               \<and> w' = w\<lparr>rng := g2, console := console w @
                     [[LStr ''Produced valid scripts:''], [LStr ''Input:''], [LScript i],
                      [LStr ''Output:''], [LScript out], [LStr ''Stack:''], [LStack stack2]]\<rparr>)"
  unfolding fuzzSimple_pass_unfold [OF assms] report_simple_eq
  by (auto split: sum.splits)

lemma fuzzSimple_pass_input_ScriptError:
  assumes "count_pass env tx0 total0 w0 = Inr (tx, total1, w)"
    and "randomInputScript None (rng w) = (i, g1)"
    and "randomOutputScript g1 = (out, g2)"
    and "etype e = Some ''ScriptError''"
    and "execute env i Stack_new flags tx 0 0 0 = Inl e"
  shows "fuzzSimple_pass env flags tx0 total0 w0 = Continue tx total1 (w\<lparr>rng := g1\<rparr>)"
  unfolding fuzzSimple_pass_unfold [OF assms(1-3)] using assms(4,5) by simp

lemma fuzzSimple_pass_output_ScriptError:
  assumes "count_pass env tx0 total0 w0 = Inr (tx, total1, w)"
    and "randomInputScript None (rng w) = (i, g1)"
    and "randomOutputScript g1 = (out, g2)"
    and "etype e = Some ''ScriptError''"
    and "execute env i Stack_new flags tx 0 0 0 = Inr stack1"
    and "execute env out stack1 flags tx 0 0 0 = Inl e"
  shows "fuzzSimple_pass env flags tx0 total0 w0 = Continue tx total1 (w\<lparr>rng := g2\<rparr>)"
  unfolding fuzzSimple_pass_unfold [OF assms(1-3)] using assms(4-6) by simp

lemma fuzzSimple_pass_rejected:
  assumes "count_pass env tx0 total0 w0 = Inr (tx, total1, w)"
    and "randomInputScript None (rng w) = (i, g1)"
    and "randomOutputScript g1 = (out, g2)"
    and "execute env i Stack_new flags tx 0 0 0 = Inr stack1"
    and "execute env out stack1 flags tx 0 0 0 = Inr stack2"
    and "length stack2 = 0 \<or> \<not> getBool env stack2 (- 1) \<or> isPushOnly env out"
  shows "fuzzSimple_pass env flags tx0 total0 w0 = Continue tx total1 (w\<lparr>rng := g2\<rparr>)"
  unfolding fuzzSimple_pass_unfold [OF assms(1-3)] using assms(4-6) by auto

text \<open>
  C7. A pass of \<^verbatim>\<open>fuzzSimple\<close> reports \<^verbatim>\<open>Produced valid scripts:\<close> and ends the loop
  exactly when the input script and then the output script execute over one stack without
  raising, the stack is not empty, its top is true and the output script is not filtered as
  push-only; the report is the seven lines appended to the console. When an execution
  raises a \<^verbatim>\<open>ScriptError\<close>, the stack is empty, its top is false or the output is
  filtered, the pass writes nothing, only the generator has advanced, and the loop goes on
  with the next pass. Before that, the opening of the pass has written at most the line of
  the counter.
\<close>

theorem fuzzSimple_reports_valid:
  assumes c: "count_pass env tx0 total0 w0 = Inr (tx, total1, w)"
    and r1: "randomInputScript None (rng w) = (i, g1)"
    and r2: "randomOutputScript g1 = (out, g2)"
  shows
    "(total1 = total0 + 1
        \<and> console w = console w0 @
             (if (total0 + 1) mod 1000 = 0
              then [[LStr ''Fuzzed %d scripts.'', LNum (total0 + 1)]] else []))
     \<and> (fuzzSimple_pass env flags tx0 total0 w0 = Break w'
        \<longleftrightarrow> (\<exists>stack1 stack2.
               execute env i Stack_new flags tx 0 0 0 = Inr stack1
               \<and> execute env out stack1 flags tx 0 0 0 = Inr stack2
               \<and> length stack2 \<noteq> 0 \<and> getBool env stack2 (- 1) \<and> \<not> isPushOnly env out
               \<and> w' = w\<lparr>rng := g2, console := console w @
                     [[LStr ''Produced valid scripts:''], [LStr ''Input:''], [LScript i],
                      [LStr ''Output:''], [LScript out], [LStr ''Stack:''], [LStack stack2]]\<rparr>))
     \<and> (fuzzSimple_pass env flags tx0 total0 w0 = Break w'
        \<longrightarrow> fuzzSimple_loop env flags (Suc n) tx0 total0 w0 = Some (Returned w'))
     \<and> (\<forall>e. etype e = Some ''ScriptError''
              \<and> execute env i Stack_new flags tx 0 0 0 = Inl e
        \<longrightarrow> fuzzSimple_pass env flags tx0 total0 w0 = Continue tx total1 (w\<lparr>rng := g1\<rparr>)
            \<and> fuzzSimple_loop env flags (Suc n) tx0 total0 w0
                = fuzzSimple_loop env flags n tx total1 (w\<lparr>rng := g1\<rparr>))
     \<and> (\<forall>e stack1. etype e = Some ''ScriptError''
              \<and> execute env i Stack_new flags tx 0 0 0 = Inr stack1
              \<and> execute env out stack1 flags tx 0 0 0 = Inl e
        \<longrightarrow> fuzzSimple_pass env flags tx0 total0 w0 = Continue tx total1 (w\<lparr>rng := g2\<rparr>)
            \<and> fuzzSimple_loop env flags (Suc n) tx0 total0 w0
                = fuzzSimple_loop env flags n tx total1 (w\<lparr>rng := g2\<rparr>))
     \<and> (\<forall>stack1 stack2.
              execute env i Stack_new flags tx 0 0 0 = Inr stack1
              \<and> execute env out stack1 flags tx 0 0 0 = Inr stack2
              \<and> (length stack2 = 0 \<or> \<not> getBool env stack2 (- 1) \<or> isPushOnly env out)
        \<longrightarrow> fuzzSimple_pass env flags tx0 total0 w0 = Continue tx total1 (w\<lparr>rng := g2\<rparr>)
            \<and> fuzzSimple_loop env flags (Suc n) tx0 total0 w0
                = fuzzSimple_loop env flags n tx total1 (w\<lparr>rng := g2\<rparr>))"
proof (intro conjI allI impI)
  show "total1 = total0 + 1"
    using count_pass_console [OF c] by simp
next
  show "console w = console w0 @
         (if (total0 + 1) mod 1000 = 0
          then [[LStr ''Fuzzed %d scripts.'', LNum (total0 + 1)]] else [])"
    using count_pass_console [OF c] by simp
next
  show "fuzzSimple_pass env flags tx0 total0 w0 = Break w'
        \<longleftrightarrow> (\<exists>stack1 stack2.
               execute env i Stack_new flags tx 0 0 0 = Inr stack1
               \<and> execute env out stack1 flags tx 0 0 0 = Inr stack2
               \<and> length stack2 \<noteq> 0 \<and> getBool env stack2 (- 1) \<and> \<not> isPushOnly env out
               \<and> w' = w\<lparr>rng := g2, console := console w @
                     [[LStr ''Produced valid scripts:''], [LStr ''Input:''], [LScript i],
                      [LStr ''Output:''], [LScript out], [LStr ''Stack:''], [LStack stack2]]\<rparr>)"
    by (rule fuzzSimple_pass_Break_iff [OF c r1 r2])
next
  assume "fuzzSimple_pass env flags tx0 total0 w0 = Break w'"
  then show "fuzzSimple_loop env flags (Suc n) tx0 total0 w0 = Some (Returned w')"
    by simp
next
  fix e
  assume a: "etype e = Some ''ScriptError'' \<and> execute env i Stack_new flags tx 0 0 0 = Inl e"
  then have p: "fuzzSimple_pass env flags tx0 total0 w0 = Continue tx total1 (w\<lparr>rng := g1\<rparr>)"
    using fuzzSimple_pass_input_ScriptError [OF c r1 r2] by blast
  show "fuzzSimple_pass env flags tx0 total0 w0 = Continue tx total1 (w\<lparr>rng := g1\<rparr>)"
    by (rule p)
  show "fuzzSimple_loop env flags (Suc n) tx0 total0 w0
          = fuzzSimple_loop env flags n tx total1 (w\<lparr>rng := g1\<rparr>)"
    using p by simp
next
  fix e stack1
  assume a: "etype e = Some ''ScriptError''
      \<and> execute env i Stack_new flags tx 0 0 0 = Inr stack1
      \<and> execute env out stack1 flags tx 0 0 0 = Inl e"
  then have p: "fuzzSimple_pass env flags tx0 total0 w0 = Continue tx total1 (w\<lparr>rng := g2\<rparr>)"
    using fuzzSimple_pass_output_ScriptError [OF c r1 r2] by blast
  show "fuzzSimple_pass env flags tx0 total0 w0 = Continue tx total1 (w\<lparr>rng := g2\<rparr>)"
    by (rule p)
  show "fuzzSimple_loop env flags (Suc n) tx0 total0 w0
          = fuzzSimple_loop env flags n tx total1 (w\<lparr>rng := g2\<rparr>)"
    using p by simp
next
  fix stack1 stack2
  assume a: "execute env i Stack_new flags tx 0 0 0 = Inr stack1
      \<and> execute env out stack1 flags tx 0 0 0 = Inr stack2
      \<and> (length stack2 = 0 \<or> \<not> getBool env stack2 (- 1) \<or> isPushOnly env out)"
  then have p: "fuzzSimple_pass env flags tx0 total0 w0 = Continue tx total1 (w\<lparr>rng := g2\<rparr>)"
    using fuzzSimple_pass_rejected [OF c r1 r2] by blast
  show "fuzzSimple_pass env flags tx0 total0 w0 = Continue tx total1 (w\<lparr>rng := g2\<rparr>)"
    by (rule p)
  show "fuzzSimple_loop env flags (Suc n) tx0 total0 w0
          = fuzzSimple_loop env flags n tx total1 (w\<lparr>rng := g2\<rparr>)"
    using p by simp
qed

theorem fuzzSimple_reports_valid_witness:
  "(\<exists>g. fuzzSimple_loop lib_accept 1 (Suc 0) tx_one 0 (world0\<lparr>rng := (\<lambda>i. if i = 3 then 0x87 else 0)\<rparr>)
            = Some (Returned \<lparr>rng = g, console =
              [[LStr ''Produced valid scripts:''], [LStr ''Input:''], [LScript [Push 0x4c []]],
               [LStr ''Output:''], [LScript [Opcode 0x87]], [LStr ''Stack:''], [LStack [[1], [1]]]]\<rparr>))
   \<and> (\<exists>g. fuzzSimple_pass lib0 1 tx_one 0 world0 = Continue tx_one 1 \<lparr>rng = g, console = []\<rparr>
         \<and> fuzzSimple_loop lib0 1 (Suc 0) tx_one 0 world0 = None)
   \<and> (\<exists>g. fuzzSimple_pass lib_accept 1 tx_one 0 world0 = Continue tx_one 1 \<lparr>rng = g, console = []\<rparr>)"
proof -
  define gA :: rng where "gA = (\<lambda>i. if i = 3 then 0x87 else 0)"
  define wA where "wA = world0\<lparr>rng := gA\<rparr>"
  have c: "count_pass lib_accept tx_one 0 wA = Inr (tx_one, 1, wA)"
    by (simp add: count_pass_def)
  obtain g1 g2 where r: "randomInputScript None (rng wA) = ([Push 0x4c []], g1)"
      "randomOutputScript g1 = ([Opcode 0x87], g2)"
  proof -
    have "\<exists>g1 g2. randomInputScript None (rng wA) = ([Push 0x4c []], g1)
        \<and> randomOutputScript g1 = ([Opcode 0x87], g2)"
      by (simp add: wA_def gA_def generator_defs)
    then show ?thesis using that by blast
  qed
  define wB where "wB = wA\<lparr>rng := g2, console := console wA @
      [[LStr ''Produced valid scripts:''], [LStr ''Input:''], [LScript [Push 0x4c []]],
       [LStr ''Output:''], [LScript [Opcode 0x87]], [LStr ''Stack:''], [LStack [[1], [1]]]]\<rparr>"
  note t = fuzzSimple_reports_valid [OF c r, of 1 wB 0]
  have b: "fuzzSimple_pass lib_accept 1 tx_one 0 wA = Break wB"
    using t [THEN conjunct2, THEN conjunct1]
    by (simp add: wB_def lib_accept_def lib0_def Stack_new_def isPushOnly_def values_def)
  from t [THEN conjunct2, THEN conjunct2, THEN conjunct1] b
  have s: "fuzzSimple_loop lib_accept 1 (Suc 0) tx_one 0 wA = Some (Returned wB)"
    by blast
  have c0: "count_pass lib0 tx_one 0 world0 = Inr (tx_one, 1, world0)"
    and c1: "count_pass lib_accept tx_one 0 world0 = Inr (tx_one, 1, world0)"
    by (simp_all add: count_pass_def)
  obtain h1 h2 where q: "randomInputScript None (rng world0) = ([Push 0x4c []], h1)"
      "randomOutputScript h1 = ([Opcode 0], h2)"
  proof -
    have "\<exists>h1 h2. randomInputScript None (rng world0) = ([Push 0x4c []], h1)
        \<and> randomOutputScript h1 = ([Opcode 0], h2)"
      by (simp add: world0_def generator_defs)
    then show ?thesis using that by blast
  qed
  have k: "fuzzSimple_pass lib0 1 tx_one 0 world0 = Continue tx_one 1 (world0\<lparr>rng := h2\<rparr>)
         \<and> fuzzSimple_loop lib0 1 (Suc 0) tx_one 0 world0
             = fuzzSimple_loop lib0 1 0 tx_one 1 (world0\<lparr>rng := h2\<rparr>)"
    using fuzzSimple_reports_valid [OF c0 q, of 1 world0 0, THEN conjunct2, THEN conjunct2,
        THEN conjunct2, THEN conjunct2, THEN conjunct1, rule_format,
        of "Exn (Some ''ScriptError'') (Some ''BAD_OPCODE'')" "[[]]"]
    by (simp add: lib0_def Stack_new_def)
  have m: "fuzzSimple_pass lib_accept 1 tx_one 0 world0 = Continue tx_one 1 (world0\<lparr>rng := h2\<rparr>)"
    using fuzzSimple_reports_valid [OF c1 q, of 1 world0 0, THEN conjunct2, THEN conjunct2,
        THEN conjunct2, THEN conjunct2, THEN conjunct2, rule_format, of "[[1]]" "[[1], [1]]"]
    by (simp add: lib_accept_def lib0_def Stack_new_def isPushOnly_def values_def)
  from s k m show ?thesis
    by (auto simp: wB_def wA_def gA_def world0_def)
qed

section \<open>Script errors are not fatal\<close>

lemma fuzzSimple_pass_input_raises:
  assumes c: "count_pass env tx0 total0 w0 = Inr (tx, total1, w)"
    and r1: "randomInputScript None (rng w) = (i, g1)"
    and x: "execute env i Stack_new flags tx 0 0 0 = Inl e"
  shows "fuzzSimple_pass env flags tx0 total0 w0 =
           (if etype e = Some ''ScriptError'' then Continue tx total1 (w\<lparr>rng := g1\<rparr>)
            else Throw e (w\<lparr>rng := g1\<rparr>))"
proof -
  obtain out g2 where r2: "randomOutputScript g1 = (out, g2)"
    by (cases "randomOutputScript g1")
  show ?thesis
    unfolding fuzzSimple_pass_unfold [OF c r1 r2] x by simp
qed

lemma fuzzSimple_pass_output_raises:
  assumes c: "count_pass env tx0 total0 w0 = Inr (tx, total1, w)"
    and r1: "randomInputScript None (rng w) = (i, g1)"
    and r2: "randomOutputScript g1 = (out, g2)"
    and x1: "execute env i Stack_new flags tx 0 0 0 = Inr stack1"
    and x2: "execute env out stack1 flags tx 0 0 0 = Inl e"
  shows "fuzzSimple_pass env flags tx0 total0 w0 =
           (if etype e = Some ''ScriptError'' then Continue tx total1 (w\<lparr>rng := g2\<rparr>)
            else Throw e (w\<lparr>rng := g2\<rparr>))"
  unfolding fuzzSimple_pass_unfold [OF c r1 r2] x1 using x2 by simp

lemma fuzzVerify_pass_raises:
  assumes c: "count_pass env tx0 total0 w0 = Inr (tx, total1, w)"
    and r1: "randomInputScript None (rng w) = (i, g1)"
    and r2: "randomWitness None g1 = (wit, gw)"
    and r3: "randomOutputScript gw = (vout, g3)"
    and f: "inputs tx = first # others"
    and t: "tx3 = refresh env (tx\<lparr>inputs := first\<lparr>in_script := i, in_witness := wit\<rparr> # others\<rparr>)"
    and x: "verify env i wit vout tx3 0 0 flags = Inl e"
  shows "fuzzVerify_pass env flags tx0 total0 w0 =
           (if etype e = Some ''ScriptError''
            then Continue tx3 total1 (assertConsensus env tx3 vout flags (ecode e) (w\<lparr>rng := g3\<rparr>))
            else Throw e (w\<lparr>rng := g3\<rparr>))"
  unfolding fuzzVerify_pass_unfold [OF c r1 r2 r3 f t] x by simp

lemma fuzzLess_pass_raises:
  assumes c: "count_pass env tx0 total0 w0 = Inr (tx, total1, w)"
    and r: "randomContext env (rng w) = Inr (cx, gc)"
    and f: "inputs tx = first # others"
    and t: "tx4 = refresh env (tx\<lparr>inputs := first\<lparr>in_script := ctx_input cx,
                                                   in_witness := ctx_witness cx\<rparr> # others\<rparr>)"
    and x: "verify env (ctx_input cx) (ctx_witness cx) (ctx_output cx) tx4 0 0 flags = Inl e"
  shows "fuzzLess_pass env flags tx0 total0 w0 =
           (if etype e = Some ''ScriptError''
            then Continue tx4 total1
                   (assertConsensus env tx4 (ctx_output cx) flags (ecode e) (w\<lparr>rng := gc\<rparr>))
            else Throw e (w\<lparr>rng := gc\<rparr>))"
  unfolding fuzzLess_pass_unfold [OF c r f t] x by simp

lemma fuzzSimple_pass_Throw:
  "fuzzSimple_pass env flags tx0 total0 w0 = Throw e w' \<Longrightarrow> etype e \<noteq> Some ''ScriptError''"
  by (auto simp: fuzzSimple_pass_def Let_def count_pass_not_Inl
      split: sum.splits prod.splits if_splits)

lemma fuzzVerify_pass_Throw:
  "fuzzVerify_pass env flags tx0 total0 w0 = Throw e w' \<Longrightarrow> etype e \<noteq> Some ''ScriptError''"
  by (auto simp: fuzzVerify_pass_def Let_def count_pass_not_Inl TypeError_def
      split: sum.splits prod.splits if_splits list.splits)

lemma fuzzLess_pass_Throw:
  "fuzzLess_pass env flags tx0 total0 w0 = Throw e w' \<Longrightarrow> etype e \<noteq> Some ''ScriptError''"
  by (auto simp: fuzzLess_pass_def Let_def count_pass_not_Inl TypeError_def
      dest: randomContext_Inl
      split: sum.splits prod.splits if_splits list.splits)

lemma fuzzSimple_loop_Aborted:
  "fuzzSimple_loop env flags n tx total0 w = Some (Aborted e w') \<Longrightarrow> etype e \<noteq> Some ''ScriptError''"
proof (induction n arbitrary: tx total0 w)
  case 0
  then show ?case by simp
next
  case (Suc n)
  from Suc.prems show ?case
    by (simp split: pass.splits) (use Suc.IH fuzzSimple_pass_Throw in blast)+
qed

lemma fuzzVerify_loop_Aborted:
  "fuzzVerify_loop env flags n tx total0 w = Some (Aborted e w') \<Longrightarrow> etype e \<noteq> Some ''ScriptError''"
proof (induction n arbitrary: tx total0 w)
  case 0
  then show ?case by simp
next
  case (Suc n)
  from Suc.prems show ?case
    by (simp split: pass.splits) (use Suc.IH fuzzVerify_pass_Throw in blast)+
qed

lemma fuzzLess_loop_Aborted:
  "fuzzLess_loop env flags n tx total0 w = Some (Aborted e w') \<Longrightarrow> etype e \<noteq> Some ''ScriptError''"
proof (induction n arbitrary: tx total0 w)
  case 0
  then show ?case by simp
next
  case (Suc n)
  from Suc.prems show ?case
    by (simp split: pass.splits) (use Suc.IH fuzzLess_pass_Throw in blast)+
qed


lemma fuzzSimple_loop_input_raises:
  assumes "count_pass env tx0 total0 w0 = Inr (tx, total1, w)"
    and "randomInputScript None (rng w) = (i, g1)"
    and "execute env i Stack_new flags tx 0 0 0 = Inl e"
  shows "fuzzSimple_loop env flags (Suc n) tx0 total0 w0 =
           (if etype e = Some ''ScriptError''
            then fuzzSimple_loop env flags n tx total1 (w\<lparr>rng := g1\<rparr>)
            else Some (Aborted e (w\<lparr>rng := g1\<rparr>)))"
  by (simp add: fuzzSimple_pass_input_raises [OF assms])

lemma fuzzSimple_loop_output_raises:
  assumes "count_pass env tx0 total0 w0 = Inr (tx, total1, w)"
    and "randomInputScript None (rng w) = (i, g1)"
    and "randomOutputScript g1 = (out, g2)"
    and "execute env i Stack_new flags tx 0 0 0 = Inr stack1"
    and "execute env out stack1 flags tx 0 0 0 = Inl e"
  shows "fuzzSimple_loop env flags (Suc n) tx0 total0 w0 =
           (if etype e = Some ''ScriptError''
            then fuzzSimple_loop env flags n tx total1 (w\<lparr>rng := g2\<rparr>)
            else Some (Aborted e (w\<lparr>rng := g2\<rparr>)))"
  by (simp add: fuzzSimple_pass_output_raises [OF assms])

lemma fuzzVerify_loop_raises:
  assumes "count_pass env tx0 total0 w0 = Inr (tx, total1, w)"
    and "randomInputScript None (rng w) = (i, g1)"
    and "randomWitness None g1 = (wit, gw)"
    and "randomOutputScript gw = (vout, g3)"
    and "inputs tx = first # others"
    and "tx3 = refresh env (tx\<lparr>inputs := first\<lparr>in_script := i, in_witness := wit\<rparr> # others\<rparr>)"
    and "verify env i wit vout tx3 0 0 flags = Inl e"
  shows "fuzzVerify_loop env flags (Suc n) tx0 total0 w0 =
           (if etype e = Some ''ScriptError''
            then fuzzVerify_loop env flags n tx3 total1
                   (assertConsensus env tx3 vout flags (ecode e) (w\<lparr>rng := g3\<rparr>))
            else Some (Aborted e (w\<lparr>rng := g3\<rparr>)))"
  by (simp add: fuzzVerify_pass_raises [OF assms])

lemma fuzzLess_loop_raises:
  assumes "count_pass env tx0 total0 w0 = Inr (tx, total1, w)"
    and "randomContext env (rng w) = Inr (cx, gc)"
    and "inputs tx = first # others"
    and "tx4 = refresh env (tx\<lparr>inputs := first\<lparr>in_script := ctx_input cx,
                                                   in_witness := ctx_witness cx\<rparr> # others\<rparr>)"
    and "verify env (ctx_input cx) (ctx_witness cx) (ctx_output cx) tx4 0 0 flags = Inl e"
  shows "fuzzLess_loop env flags (Suc n) tx0 total0 w0 =
           (if etype e = Some ''ScriptError''
            then fuzzLess_loop env flags n tx4 total1
                   (assertConsensus env tx4 (ctx_output cx) flags (ecode e) (w\<lparr>rng := gc\<rparr>))
            else Some (Aborted e (w\<lparr>rng := gc\<rparr>)))"
  by (simp add: fuzzLess_pass_raises [OF assms])

lemma fuzz_loops_Aborted:
  assumes "fuzzSimple_loop env flags m t k v = Some (Aborted e r)
           \<or> fuzzVerify_loop env flags m t k v = Some (Aborted e r)
           \<or> fuzzLess_loop env flags m t k v = Some (Aborted e r)"
  shows "etype e \<noteq> Some ''ScriptError''"
  using assms
  by (auto dest: fuzzSimple_loop_Aborted fuzzVerify_loop_Aborted fuzzLess_loop_Aborted)

text \<open>
  C1. In each of the three loops, an exception raised by the execution or verification of
  a script is caught: if its \<^verbatim>\<open>type\<close> is \<^verbatim>\<open>'ScriptError'\<close> the loop goes on with the next
  pass, and otherwise the exception is thrown again and ends the harness. No exception that
  leaves a loop is a \<^verbatim>\<open>ScriptError\<close>.
\<close>

theorem ScriptError_is_not_fatal:
  assumes "count_pass env tx0 total0 w0 = Inr (tx, total1, w)"
  shows
    "(randomInputScript None (rng w) = (i, g1)
      \<and> execute env i Stack_new flags tx 0 0 0 = Inl e
      \<longrightarrow> fuzzSimple_loop env flags (Suc n) tx0 total0 w0 =
            (if etype e = Some ''ScriptError''
             then fuzzSimple_loop env flags n tx total1 (w\<lparr>rng := g1\<rparr>)
             else Some (Aborted e (w\<lparr>rng := g1\<rparr>))))
     \<and> (randomInputScript None (rng w) = (i, g1)
      \<and> randomOutputScript g1 = (out, g2)
      \<and> execute env i Stack_new flags tx 0 0 0 = Inr stack1
      \<and> execute env out stack1 flags tx 0 0 0 = Inl e
      \<longrightarrow> fuzzSimple_loop env flags (Suc n) tx0 total0 w0 =
            (if etype e = Some ''ScriptError''
             then fuzzSimple_loop env flags n tx total1 (w\<lparr>rng := g2\<rparr>)
             else Some (Aborted e (w\<lparr>rng := g2\<rparr>))))
     \<and> (randomInputScript None (rng w) = (i, g1)
      \<and> randomWitness None g1 = (wit, gw)
      \<and> randomOutputScript gw = (vout, g3)
      \<and> inputs tx = first # others
      \<and> tx3 = refresh env (tx\<lparr>inputs := first\<lparr>in_script := i, in_witness := wit\<rparr> # others\<rparr>)
      \<and> verify env i wit vout tx3 0 0 flags = Inl e
      \<longrightarrow> fuzzVerify_loop env flags (Suc n) tx0 total0 w0 =
            (if etype e = Some ''ScriptError''
             then fuzzVerify_loop env flags n tx3 total1
                    (assertConsensus env tx3 vout flags (ecode e) (w\<lparr>rng := g3\<rparr>))
             else Some (Aborted e (w\<lparr>rng := g3\<rparr>))))
     \<and> (randomContext env (rng w) = Inr (cx, gc)
      \<and> inputs tx = first # others
      \<and> tx4 = refresh env (tx\<lparr>inputs := first\<lparr>in_script := ctx_input cx,
                                                     in_witness := ctx_witness cx\<rparr> # others\<rparr>)
      \<and> verify env (ctx_input cx) (ctx_witness cx) (ctx_output cx) tx4 0 0 flags = Inl e
      \<longrightarrow> fuzzLess_loop env flags (Suc n) tx0 total0 w0 =
            (if etype e = Some ''ScriptError''
             then fuzzLess_loop env flags n tx4 total1
                    (assertConsensus env tx4 (ctx_output cx) flags (ecode e) (w\<lparr>rng := gc\<rparr>))
             else Some (Aborted e (w\<lparr>rng := gc\<rparr>))))
     \<and> (\<forall>m t k v a r.
            fuzzSimple_loop env flags m t k v = Some (Aborted a r)
            \<or> fuzzVerify_loop env flags m t k v = Some (Aborted a r)
            \<or> fuzzLess_loop env flags m t k v = Some (Aborted a r)
          \<longrightarrow> etype a \<noteq> Some ''ScriptError'')"
proof (intro conjI impI allI)
qed ((elim conjE)?,
     (rule fuzzSimple_loop_input_raises fuzzSimple_loop_output_raises fuzzVerify_loop_raises
        fuzzLess_loop_raises fuzz_loops_Aborted; (rule assms | assumption)))+




theorem ScriptError_is_not_fatal_witness:
  "(\<exists>w'. fuzzSimple_loop lib_crash 1 (Suc 0) tx_one 0 world0 = Some (Aborted (Exn None None) w'))
   \<and> fuzzSimple_loop lib0 1 (Suc 0) tx_one 0 world0 = None
   \<and> fuzzVerify_loop lib0 1 (Suc 0) tx_one 0 world0 = None
   \<and> (\<exists>w'. fuzzLess_loop lib_crash 1 (Suc 0) tx_one 0 world0 = Some (Aborted (Exn None None) w'))"
proof -
  have c: "count_pass lib0 tx_one 0 world0 = Inr (tx_one, 1, world0)"
    and c': "count_pass lib_crash tx_one 0 world0 = Inr (tx_one, 1, world0)"
    by (simp_all add: count_pass_def)
  obtain g1 g2 gw g3
    where r1: "randomInputScript None (rng world0) = ([Push 0x4c []], g1)"
      and r2: "randomOutputScript g1 = ([Opcode 0], g2)"
      and r3: "randomWitness None g1 = ([[]], gw)"
      and r4: "randomOutputScript gw = ([Opcode 0], g3)"
  proof -
    have "\<exists>g1 g2 gw g3. randomInputScript None (rng world0) = ([Push 0x4c []], g1)
        \<and> randomOutputScript g1 = ([Opcode 0], g2)
        \<and> randomWitness None g1 = ([[]], gw)
        \<and> randomOutputScript gw = ([Opcode 0], g3)"
      by (simp add: world0_def generator_defs)
    then show ?thesis using that by blast
  qed
  obtain cx gc where r5: "randomContext lib_crash (rng world0) = Inr (cx, gc)"
    using randomContext_returns by blast
  have i: "inputs tx_one = hd (inputs tx_one) # []"
    by (simp add: tx_one_def)
  note t = ScriptError_is_not_fatal [OF c, of "[Push 0x4c []]" g1 1 _ 0 "[Opcode 0]" g2 "[[]]"
      "[[]]" gw "[Opcode 0]" g3 "hd (inputs tx_one)" "[]"
      "refresh lib0 (tx_one\<lparr>inputs := [(hd (inputs tx_one))\<lparr>in_script := [Push 0x4c []], in_witness := [[]]\<rparr>]\<rparr>)"]
  note t' = ScriptError_is_not_fatal [OF c', of "[Push 0x4c []]" g1 1 "Exn None None" 0 _ _ _ _ _ _ _ "hd (inputs tx_one)" "[]" _ cx gc
      "refresh lib_crash (tx_one\<lparr>inputs := [(hd (inputs tx_one))\<lparr>in_script := ctx_input cx, in_witness := ctx_witness cx\<rparr>]\<rparr>)"]
  have s1: "\<exists>w'. fuzzSimple_loop lib_crash 1 (Suc 0) tx_one 0 world0 = Some (Aborted (Exn None None) w')"
    using t' [THEN conjunct1] r1 by (simp add: lib_crash_def)
  have s2: "fuzzSimple_loop lib0 1 (Suc 0) tx_one 0 world0 = None"
    using t [of "Exn (Some ''ScriptError'') (Some ''BAD_OPCODE'')", THEN conjunct2, THEN conjunct1] r1 r2
    by (simp add: lib0_def Stack_new_def)
  have s3: "fuzzVerify_loop lib0 1 (Suc 0) tx_one 0 world0 = None"
    using t [of "Exn (Some ''ScriptError'') (Some ''EVAL_FALSE'')", THEN conjunct2, THEN conjunct2, THEN conjunct1] r1 r3 r4 i
    by (simp add: lib0_def)
  have s4: "\<exists>w'. fuzzLess_loop lib_crash 1 (Suc 0) tx_one 0 world0 = Some (Aborted (Exn None None) w')"
    using t' [THEN conjunct2, THEN conjunct2, THEN conjunct2, THEN conjunct1] r5 i
    by (simp add: lib_crash_def)
  from s1 s2 s3 s4 show ?thesis by blast
qed

section \<open>Script-hash spending contexts\<close>

lemma randomInputScript_push_pushes:
  assumes "randomInputScript_push s g = (s1, g1)" and "\<forall>p \<in> set s. is_Push p"
  shows "\<forall>p \<in> set s1. is_Push p"
  using assms
  by (auto simp: randomInputScript_push_def pushData_def Let_def split: prod.splits)

lemma randomInputScript_loop_pushes:
  assumes "randomInputScript_loop n s g = (s1, g1)" and "\<forall>p \<in> set s. is_Push p"
  shows "\<forall>p \<in> set s1. is_Push p"
  using assms
proof (induction n arbitrary: s g)
  case 0
  then show ?case by simp
next
  case (Suc n)
  obtain s2 g2 where step: "randomInputScript_push s g = (s2, g2)"
    by (cases "randomInputScript_push s g")
  with Suc.prems have "randomInputScript_loop n s2 g2 = (s1, g1)" by simp
  moreover from step Suc.prems(2) have "\<forall>p \<in> set s2. is_Push p"
    by (rule randomInputScript_push_pushes)
  ultimately show ?case by (rule Suc.IH)
qed

lemma randomInputScript_redeem:
  assumes "randomInputScript (Some r) g = (s, g1)"
  shows "(\<forall>p \<in> set s. is_Push p) \<and> s \<noteq> [] \<and> last s = Push (push_value (length r)) r"
proof -
  obtain n g0 where a: "util_random 1 100 g = (n, g0)" by (cases "util_random 1 100 g")
  obtain s0 g2 where b: "randomInputScript_loop (nat n) Script_write g0 = (s0, g2)"
    by (cases "randomInputScript_loop (nat n) Script_write g0")
  from b have "\<forall>p \<in> set s0. is_Push p"
    by (rule randomInputScript_loop_pushes) (simp add: Script_write_def)
  moreover from assms a b have "s = s0 @ [Push (push_value (length r)) r]"
    by (simp add: randomInputScript_def compile_def pushData_def)
  ultimately show ?thesis by auto
qed

lemma randomWitness_redeem:
  assumes "randomWitness (Some r) g = (wit, g1)"
  shows "wit \<noteq> [] \<and> last wit = r"
  using assms
  by (auto simp: randomWitness_def Let_def split: prod.splits)

lemmas redeem_defs =
  randomRedeem_def randomPubkey_def randomScripthashContext_def randomWitnessScripthashContext_def
  script_hash160_def script_sha256_def toRaw_def serialize_def

text \<open>
  C5. Every context that \<^verbatim>\<open>randomScripthashContext\<close> produces (it always produces one)
  has an input script that consists of data pushes only, the last of which pushes the
  serialized redeem script; an empty witness; and as output script the script-hash
  template of the \<^verbatim>\<open>hash160\<close> of that last pushed element, which has 20 bytes when
  \<^verbatim>\<open>hash160\<close> returns 20 bytes.
\<close>

theorem randomScripthashContext_spendable:
  "\<exists>c g1 redeem.
      randomScripthashContext env g = Inr (c, g1)
      \<and> ctx_redeem c = Some redeem
      \<and> (\<forall>p \<in> set (ctx_input c). is_Push p)
      \<and> ctx_input c \<noteq> []
      \<and> last (ctx_input c) = Push (push_value (length (toRaw redeem))) (toRaw redeem)
      \<and> ctx_witness c = []
      \<and> ctx_output c = fromScripthash env (hash160 env (data (last (ctx_input c))))
      \<and> ((\<forall>b. length (hash160 env b) = 20)
           \<longrightarrow> length (hash160 env (data (last (ctx_input c)))) = 20)"
proof -
  obtain redeem g0 where a: "randomRedeem env g = Inr (redeem, g0)"
    using randomRedeem_returns by blast
  obtain i g1 where b: "randomInputScript (Some (toRaw redeem)) g0 = (i, g1)"
    by (cases "randomInputScript (Some (toRaw redeem)) g0")
  from randomInputScript_redeem [OF b]
  have i: "\<forall>p \<in> set i. is_Push p" "i \<noteq> []"
    "last i = Push (push_value (length (toRaw redeem))) (toRaw redeem)"
    by simp_all
  from a b have "randomScripthashContext env g =
      Inr (\<lparr>ctx_input = i, ctx_witness = Witness_new,
             ctx_output = fromScripthash env (script_hash160 env redeem),
             ctx_redeem = Some redeem\<rparr>, g1)"
    by (simp add: randomScripthashContext_def)
  with i show ?thesis
    by (simp add: Witness_new_def script_hash160_def)
qed

theorem randomScripthashContext_spendable_witness:
  "\<exists>c g1. randomScripthashContext lib0 (\<lambda>i. 0) = Inr (c, g1)
      \<and> (\<forall>p \<in> set (ctx_input c). is_Push p)
      \<and> ctx_redeem c = Some [Push 33 (replicate 33 0), Opcode 0xac]
      \<and> ctx_input c = [Push 0x4c [], Push 35 (33 # replicate 33 0 @ [0xac])]
      \<and> ctx_output c = [Opcode 0xa9, Push 20 (33 # replicate 19 0), Opcode 0x87]
      \<and> ctx_output c = fromScripthash lib0 (hash160 lib0 (data (last (ctx_input c))))
      \<and> length (hash160 lib0 (data (last (ctx_input c)))) = 20"
proof -
  have h: "\<forall>b. length (hash160 lib0 b) = 20"
    by (auto simp: lib0_def)
  have e: "\<exists>g1. randomScripthashContext lib0 (\<lambda>i. 0) =
      Inr (\<lparr>ctx_input = [Push 0x4c [], Push 35 (33 # replicate 33 0 @ [0xac])],
             ctx_witness = [],
             ctx_output = [Opcode 0xa9, Push 20 (33 # replicate 19 0), Opcode 0x87],
             ctx_redeem = Some [Push 33 (replicate 33 0), Opcode 0xac]\<rparr>, g1)"
    by (simp add: redeem_defs generator_defs lib0_def map_replicate_const)
  from randomScripthashContext_spendable [of lib0 "\<lambda>i. 0"] h e show ?thesis
    by auto
qed

text \<open>
  C6. Every context that \<^verbatim>\<open>randomWitnessScripthashContext\<close> produces (it always produces
  one) has an empty input script, a witness whose last element is the serialized redeem
  script, and as output script the version-0 witness program of the \<^verbatim>\<open>sha256\<close> of that
  last element, which has 32 bytes when \<^verbatim>\<open>sha256\<close> returns 32 bytes.
\<close>

theorem randomWitnessScripthashContext_spendable:
  "\<exists>c g1 redeem.
      randomWitnessScripthashContext env g = Inr (c, g1)
      \<and> ctx_redeem c = Some redeem
      \<and> ctx_input c = []
      \<and> ctx_witness c \<noteq> []
      \<and> last (ctx_witness c) = toRaw redeem
      \<and> ctx_output c = fromProgram env 0 (sha256 env (last (ctx_witness c)))
      \<and> ((\<forall>b. length (sha256 env b) = 32)
           \<longrightarrow> length (sha256 env (last (ctx_witness c))) = 32)"
proof -
  obtain redeem g0 where a: "randomRedeem env g = Inr (redeem, g0)"
    using randomRedeem_returns by blast
  obtain wit g1 where b: "randomWitness (Some (toRaw redeem)) g0 = (wit, g1)"
    by (cases "randomWitness (Some (toRaw redeem)) g0")
  from randomWitness_redeem [OF b]
  have w: "wit \<noteq> []" "last wit = toRaw redeem"
    by simp_all
  from a b have "randomWitnessScripthashContext env g =
      Inr (\<lparr>ctx_input = Script_new, ctx_witness = wit,
             ctx_output = fromProgram env 0 (script_sha256 env redeem),
             ctx_redeem = Some redeem\<rparr>, g1)"
    by (simp add: randomWitnessScripthashContext_def)
  with w show ?thesis
    by (simp add: Script_new_def script_sha256_def)
qed

theorem randomWitnessScripthashContext_spendable_witness:
  "\<exists>c g1. randomWitnessScripthashContext lib0 (\<lambda>i. 0) = Inr (c, g1)
      \<and> ctx_redeem c = Some [Push 33 (replicate 33 0), Opcode 0xac]
      \<and> ctx_input c = []
      \<and> ctx_witness c = [[], 33 # replicate 33 0 @ [0xac]]
      \<and> ctx_output c = [Opcode 0, Push 32 (33 # replicate 31 0)]
      \<and> ctx_output c = fromProgram lib0 0 (sha256 lib0 (last (ctx_witness c)))
      \<and> length (sha256 lib0 (last (ctx_witness c))) = 32"
proof -
  have h: "\<forall>b. length (sha256 lib0 b) = 32"
    by (auto simp: lib0_def)
  have e: "\<exists>g1. randomWitnessScripthashContext lib0 (\<lambda>i. 0) =
      Inr (\<lparr>ctx_input = [],
             ctx_witness = [[], 33 # replicate 33 0 @ [0xac]],
             ctx_output = [Opcode 0, Push 32 (33 # replicate 31 0)],
             ctx_redeem = Some [Push 33 (replicate 33 0), Opcode 0xac]\<rparr>, g1)"
    by (simp add: redeem_defs generator_defs lib0_def map_replicate_const)
  from randomWitnessScripthashContext_spendable [of lib0 "\<lambda>i. 0"] h e show ?thesis
    by auto
qed

section \<open>Only input 0 and amount 0 are verified\<close>

lemma with_engine_fields [simp]:
  "hash160 (with_engine env ex vf orc) = hash160 env"
  "sha256 (with_engine env ex vf orc) = sha256 env"
  "fromPubkey (with_engine env ex vf orc) = fromPubkey env"
  "fromPubkeyhash (with_engine env ex vf orc) = fromPubkeyhash env"
  "fromMultisig (with_engine env ex vf orc) = fromMultisig env"
  "fromScripthash (with_engine env ex vf orc) = fromScripthash env"
  "fromProgram (with_engine env ex vf orc) = fromProgram env"
  "fromItems (with_engine env ex vf orc) = fromItems env"
  "Script_isPushOnly (with_engine env ex vf orc) = Script_isPushOnly env"
  "NOP (with_engine env ex vf orc) = NOP env"
  "NOP_1 (with_engine env ex vf orc) = NOP_1 env"
  "NOP_3 (with_engine env ex vf orc) = NOP_3 env"
  "getBool (with_engine env ex vf orc) = getBool env"
  "Input_fromOutpoint (with_engine env ex vf orc) = Input_fromOutpoint env"
  "Output_fromScript (with_engine env ex vf orc) = Output_fromScript env"
  "TX_new (with_engine env ex vf orc) = TX_new env"
  "refresh (with_engine env ex vf orc) = refresh env"
  "tx_toRaw (with_engine env ex vf orc) = tx_toRaw env"
  "execute (with_engine env ex vf orc) = ex"
  "verify (with_engine env ex vf orc) = vf"
  "consensus (with_engine env ex vf orc) = orc"
  by (simp_all add: with_engine_def)

lemma isPushOnly_engine: "isPushOnly (with_engine env ex vf orc) s = isPushOnly env s"
  by (simp add: isPushOnly_def isPushOnly_loop_iff)

lemma randomScripts_engine:
  "randomPubkey (with_engine env ex vf orc) g = randomPubkey env g"
  "randomPubkeyhash (with_engine env ex vf orc) g = randomPubkeyhash env g"
  "randomMultisig (with_engine env ex vf orc) g = randomMultisig env g"
  "randomScripthash (with_engine env ex vf orc) g = randomScripthash env g"
  "randomWitnessPubkeyhash (with_engine env ex vf orc) g = randomWitnessPubkeyhash env g"
  "randomWitnessScripthash (with_engine env ex vf orc) g = randomWitnessScripthash env g"
  "randomProgram (with_engine env ex vf orc) g = randomProgram env g"
  by (simp_all add: randomPubkey_def randomPubkeyhash_def randomMultisig_def randomScripthash_def
      randomWitnessPubkeyhash_def randomWitnessScripthash_def randomProgram_def)

lemma randomRedeem_engine: "randomRedeem (with_engine env ex vf orc) g = randomRedeem env g"
  by (simp add: randomRedeem_def randomScripts_engine split: prod.split)

lemma randomScript_engine: "randomScript (with_engine env ex vf orc) g = randomScript env g"
  by (simp add: randomScript_def randomScripts_engine split: prod.split)

lemma randomOutput_engine: "randomOutput (with_engine env ex vf orc) g = randomOutput env g"
  by (simp add: randomOutput_def randomScript_engine split: prod.split sum.split)

lemma randomInput_engine: "randomInput (with_engine env ex vf orc) g = randomInput env g"
  by (simp add: randomInput_def Let_def split: prod.split)

lemma randomTX_inputs_engine:
  "randomTX_inputs (with_engine env ex vf orc) n tx g = randomTX_inputs env n tx g"
  by (induction n arbitrary: tx g) (simp_all add: randomInput_engine split: prod.split)

lemma randomTX_outputs_engine:
  "randomTX_outputs (with_engine env ex vf orc) n tx g = randomTX_outputs env n tx g"
  by (induction n arbitrary: tx g) (simp_all add: randomOutput_engine split: prod.split sum.split)

lemma randomTX_engine: "randomTX (with_engine env ex vf orc) g = randomTX env g"
  by (simp add: randomTX_def randomTX_inputs_engine randomTX_outputs_engine Let_def
      split: prod.split sum.split)

lemma count_pass_engine:
  "count_pass (with_engine env ex vf orc) tx total0 w = count_pass env tx total0 w"
  by (simp add: count_pass_def randomTX_engine Let_def split: prod.split sum.split)

lemma randomContext_engine: "randomContext (with_engine env ex vf orc) g = randomContext env g"
  by (simp add: randomContext_def randomPubkeyContext_def randomPubkeyhashContext_def
      randomScripthashContext_def randomWitnessPubkeyhashContext_def
      randomWitnessScripthashContext_def randomWitnessNestedContext_def
      randomScripts_engine randomRedeem_engine script_hash160_def script_sha256_def Let_def
      split: prod.split sum.split)

lemma assertConsensus_engine:
  assumes "oracles_agree (consensus env) orc"
  shows "assertConsensus (with_engine env ex vf orc) tx out flags code w
         = assertConsensus env tx out flags code w"
  using assms
  by (auto simp: oracles_agree_def assertConsensus_def verifyConsensus_def Let_def
      split: option.splits)

lemma fuzzSimple_pass_engine:
  assumes "\<forall>s st f t ver. ex s st f t 0 0 ver = execute env s st f t 0 0 ver"
  shows "fuzzSimple_pass (with_engine env ex vf orc) flags tx total0 w
         = fuzzSimple_pass env flags tx total0 w"
  using assms
  by (simp add: fuzzSimple_pass_def count_pass_engine isPushOnly_engine Let_def
      split: prod.split sum.split)

lemma fuzzVerify_pass_engine:
  assumes "\<forall>i wit out t f. vf i wit out t 0 0 f = verify env i wit out t 0 0 f"
    and "oracles_agree (consensus env) orc"
  shows "fuzzVerify_pass (with_engine env ex vf orc) flags tx total0 w
         = fuzzVerify_pass env flags tx total0 w"
  using assms
  by (simp add: fuzzVerify_pass_def count_pass_engine isPushOnly_engine assertConsensus_engine
      Let_def split: prod.split sum.split list.split)

lemma fuzzLess_pass_engine:
  assumes "\<forall>i wit out t f. vf i wit out t 0 0 f = verify env i wit out t 0 0 f"
    and "oracles_agree (consensus env) orc"
  shows "fuzzLess_pass (with_engine env ex vf orc) flags tx total0 w
         = fuzzLess_pass env flags tx total0 w"
  using assms
  by (simp add: fuzzLess_pass_def count_pass_engine randomContext_engine assertConsensus_engine
      Let_def split: prod.split sum.split list.split)

lemma fuzzSimple_loop_engine:
  assumes "\<forall>s st f t ver. ex s st f t 0 0 ver = execute env s st f t 0 0 ver"
  shows "fuzzSimple_loop (with_engine env ex vf orc) flags n tx total0 w
         = fuzzSimple_loop env flags n tx total0 w"
  by (induction n arbitrary: tx total0 w) (simp_all add: fuzzSimple_pass_engine [where ex = ex and env = env, OF assms] split: pass.split)

lemma fuzzVerify_loop_engine:
  assumes "\<forall>i wit out t f. vf i wit out t 0 0 f = verify env i wit out t 0 0 f"
    and "oracles_agree (consensus env) orc"
  shows "fuzzVerify_loop (with_engine env ex vf orc) flags n tx total0 w
         = fuzzVerify_loop env flags n tx total0 w"
  by (induction n arbitrary: tx total0 w) (simp_all add: fuzzVerify_pass_engine [where vf = vf and env = env, OF assms] split: pass.split)

lemma fuzzLess_loop_engine:
  assumes "\<forall>i wit out t f. vf i wit out t 0 0 f = verify env i wit out t 0 0 f"
    and "oracles_agree (consensus env) orc"
  shows "fuzzLess_loop (with_engine env ex vf orc) flags n tx total0 w
         = fuzzLess_loop env flags n tx total0 w"
  by (induction n arbitrary: tx total0 w) (simp_all add: fuzzLess_pass_engine [where vf = vf and env = env, OF assms] split: pass.split)

text \<open>
  A generated transaction is the library's new transaction with one to four inputs pushed
  (\<^verbatim>\<open>util.random(1, 5)\<close>), then refreshed; input \<open>0\<close> is the first of them when the new
  transaction of the library has no inputs.
\<close>

lemma randomTX_inputs_length:
  "randomTX_inputs env n tx g = (tx1, g1) \<Longrightarrow> length (inputs tx1) = length (inputs tx) + n"
proof (induction n arbitrary: tx g)
  case 0
  then show ?case by simp
next
  case (Suc n)
  obtain i g0 where a: "randomInput env g = (i, g0)" by (cases "randomInput env g")
  with Suc.prems have "randomTX_inputs env n (tx\<lparr>inputs := inputs tx @ [i]\<rparr>) g0 = (tx1, g1)"
    by simp
  from Suc.IH [OF this] show ?case by simp
qed

lemma randomTX_outputs_inputs:
  "randomTX_outputs env n tx g = Inr (tx1, g1) \<Longrightarrow> inputs tx1 = inputs tx"
proof (induction n arbitrary: tx g)
  case 0
  then show ?case by simp
next
  case (Suc n)
  then obtain out g0 where a: "randomOutput env g = Inr (out, g0)"
    by (cases "randomOutput env g") auto
  with Suc.prems have "randomTX_outputs env n (tx\<lparr>outputs := outputs tx @ [out]\<rparr>) g0 = Inr (tx1, g1)"
    by simp
  from Suc.IH [OF this] show ?case by simp
qed

lemma randomTX_input_count:
  assumes "randomTX env g = Inr (tx, g1)"
  shows "\<exists>t k. tx = refresh env t \<and> 1 \<le> k \<and> k \<le> 4
           \<and> length (inputs t) = length (inputs (TX_new env)) + k"
proof -
  obtain n_in g2 where a: "util_random 1 5 g = (n_in, g2)" by (cases "util_random 1 5 g")
  from util_random_range [OF _ a] have k: "1 \<le> nat n_in" "nat n_in \<le> 4" by linarith+
  obtain n_out g3 where b: "util_random 0 5 g2 = (n_out, g3)" by (cases "util_random 0 5 g2")
  obtain v g4 where c: "util_random 0 0xffffffff g3 = (v, g4)"
    by (cases "util_random 0 0xffffffff g3")
  obtain tx1 g5 where d: "randomTX_inputs env (nat n_in) ((TX_new env)\<lparr>version := v\<rparr>) g4 = (tx1, g5)"
    by (cases "randomTX_inputs env (nat n_in) ((TX_new env)\<lparr>version := v\<rparr>) g4")
  from randomTX_inputs_length [OF d]
  have l1: "length (inputs tx1) = length (inputs (TX_new env)) + nat n_in" by simp
  obtain tx2 g6 where e: "randomTX_outputs env (nat n_out) tx1 g5 = Inr (tx2, g6)"
    using randomTX_outputs_returns by blast
  from randomTX_outputs_inputs [OF e] l1
  have l2: "length (inputs tx2) = length (inputs (TX_new env)) + nat n_in" by simp
  from assms a b c d e have "tx = refresh env tx2 \<or> (\<exists>l. tx = refresh env (tx2\<lparr>locktime := l\<rparr>))"
    by (auto simp: randomTX_def Let_def split: prod.splits if_splits)
  then show ?thesis
  proof (elim disjE exE)
    assume "tx = refresh env tx2"
    with l2 k show ?thesis by blast
  next
    fix l
    assume "tx = refresh env (tx2\<lparr>locktime := l\<rparr>)"
    moreover have "length (inputs (tx2\<lparr>locktime := l\<rparr>)) = length (inputs (TX_new env)) + nat n_in"
      using l2 by simp
    ultimately show ?thesis using k by blast
  qed
qed

text \<open>
  C9. Every call of the harness to the interpreter, to the verifier and to the oracle is
  for input index \<open>0\<close> and amount \<open>0\<close>, whatever the transaction and the flags: the runs of
  the three loops and \<^verbatim>\<open>assertConsensus\<close> are the same against any two libraries that
  agree on the calls with that index and that amount.
\<close>

theorem harness_targets_input_0_amount_0:
  assumes "\<forall>s st f t ver. ex s st f t 0 0 ver = execute env s st f t 0 0 ver"
    and "\<forall>i wit out t f. vf i wit out t 0 0 f = verify env i wit out t 0 0 f"
    and "oracles_agree (consensus env) orc"
  shows "fuzzSimple (env\<lparr>execute := ex, verify := vf, consensus := orc\<rparr>) flags n w
           = fuzzSimple env flags n w
     \<and> fuzzVerify (env\<lparr>execute := ex, verify := vf, consensus := orc\<rparr>) flags n w
           = fuzzVerify env flags n w
     \<and> fuzzLess (env\<lparr>execute := ex, verify := vf, consensus := orc\<rparr>) flags n w
           = fuzzLess env flags n w
     \<and> assertConsensus (env\<lparr>execute := ex, verify := vf, consensus := orc\<rparr>) tx out flags code w
           = assertConsensus env tx out flags code w"
  unfolding with_engine_def [symmetric]
  by (simp add: fuzzSimple_def fuzzVerify_def fuzzLess_def randomTX_engine
      fuzzSimple_loop_engine [where ex = ex and env = env, OF assms(1)]
      fuzzVerify_loop_engine [where vf = vf and env = env, OF assms(2,3)]
      fuzzLess_loop_engine [where vf = vf and env = env, OF assms(2,3)]
      assertConsensus_engine [OF assms(3)]
      split: prod.split sum.split)

theorem harness_targets_input_0_amount_0_witness:
  "fuzzSimple lib_elsewhere 1 3 world0 = fuzzSimple lib_oracle 1 3 world0
   \<and> fuzzVerify lib_elsewhere 1 3 world0 = fuzzVerify lib_oracle 1 3 world0
   \<and> fuzzLess lib_elsewhere 1 3 world0 = fuzzLess lib_oracle 1 3 world0
   \<and> assertConsensus lib_elsewhere tx_one [Opcode 0x87] 1 (Some ''EVAL_FALSE'') world0
       = assertConsensus lib_oracle tx_one [Opcode 0x87] 1 (Some ''EVAL_FALSE'') world0"
proof -
  have a: "\<forall>s st f t ver.
      (if (0::int) = 0 \<and> (0::int) = 0 then execute lib_oracle s st f t 0 0 ver else Inr [])
        = execute lib_oracle s st f t 0 0 ver"
    by simp
  have b: "\<forall>i wit out t f.
      (if (0::int) = 0 \<and> (0::int) = 0 then verify lib_oracle i wit out t 0 0 f else Inr ())
        = verify lib_oracle i wit out t 0 0 f"
    by simp
  have c: "oracles_agree (consensus lib_oracle)
      (Some (\<lambda>rt i ro v f. if i = 0 \<and> v = 0 then ''OK'' else ''EVAL_FALSE''))"
    by (simp add: oracles_agree_def lib_oracle_def)
  show ?thesis
    unfolding lib_elsewhere_def
    by (rule harness_targets_input_0_amount_0
          [where env = lib_oracle
             and ex = "\<lambda>s st f t i v ver.
                         if i = 0 \<and> v = 0 then execute lib_oracle s st f t i v ver else Inr []"
             and vf = "\<lambda>i wit out t idx v f.
                         if idx = 0 \<and> v = 0 then verify lib_oracle i wit out t idx v f else Inr ()",
           OF a b c])
qed

section \<open>The scripts of the harness survive the round trip\<close>

text \<open>
  An input script built by \<^verbatim>\<open>randomInputScript\<close> is well-formed, and an output script
  parsed by \<^verbatim>\<open>randomOutputScript\<close> from random bytes serializes to those bytes: both are
  parsed back from their serialization unchanged.
\<close>

lemma randomInputScript_push_wf:
  assumes "randomInputScript_push s g = (s1, g1)" and "wellformed s"
  shows "wellformed s1"
proof -
  obtain len g0 where a: "util_random 0 100 g = (len, g0)" by (cases "util_random 0 100 g")
  from util_random_range [OF _ a] have "nat len < 100" by linarith
  then have "length (fst (randomBytes (nat len) g0)) < 2 ^ 32"
    by (simp add: randomBytes_def)
  with assms a show ?thesis
    by (auto simp: randomInputScript_push_def intro: pushData_wf split: prod.splits)
qed

lemma randomInputScript_loop_wf:
  assumes "randomInputScript_loop n s g = (s1, g1)" and "wellformed s"
  shows "wellformed s1"
  using assms
proof (induction n arbitrary: s g)
  case 0
  then show ?case by simp
next
  case (Suc n)
  obtain s2 g2 where step: "randomInputScript_push s g = (s2, g2)"
    by (cases "randomInputScript_push s g")
  with Suc.prems have "randomInputScript_loop n s2 g2 = (s1, g1)" by simp
  moreover from step Suc.prems(2) have "wellformed s2"
    by (rule randomInputScript_push_wf)
  ultimately show ?case by (rule Suc.IH)
qed

lemma randomInputScript_wf:
  assumes "randomInputScript redeem g = (s, g1)"
    and "\<forall>r. redeem = Some r \<longrightarrow> length r < 2 ^ 32"
  shows "wellformed s"
proof -
  obtain n g0 where a: "util_random 1 100 g = (n, g0)" by (cases "util_random 1 100 g")
  obtain s0 g2 where b: "randomInputScript_loop (nat n) Script_write g0 = (s0, g2)"
    by (cases "randomInputScript_loop (nat n) Script_write g0")
  from b have "wellformed s0"
    by (rule randomInputScript_loop_wf) (simp add: Script_write_def wellformed_def)
  with assms a b show ?thesis
    by (auto simp: randomInputScript_def compile_def intro: pushData_wf split: option.splits)
qed

lemma randomInputScript_round_trip:
  assumes "randomInputScript None g = (s, g1)"
  shows "fromRaw (toRaw s) = s"
  using randomInputScript_wf [OF assms]
  by (simp add: fromRaw_def toRaw_def parse_serialize)

lemma randomOutputScript_round_trip:
  assumes "randomOutputScript g = (s, g1)"
  shows "fromRaw (toRaw s) = s"
  using assms
  by (auto simp: randomOutputScript_def fromRaw_def toRaw_def serialize_parse Let_def
      split: prod.splits)

section \<open>The flag presets of the harness\<close>

text \<open>
  The harness adds \<^verbatim>\<open>VERIFY_WITNESS\<close> to the mandatory preset. Its mandatory flags are
  among its standard flags exactly when the mandatory preset and \<^verbatim>\<open>VERIFY_WITNESS\<close> both
  are among the standard preset; the values of the presets are those of \<^verbatim>\<open>Script.flags\<close>,
  which is not among the sources.
\<close>

lemma MANDATORY_in_STANDARD_iff:
  "MANDATORY env AND STANDARD env = MANDATORY env \<longleftrightarrow>
     MANDATORY_VERIFY_FLAGS env AND STANDARD_VERIFY_FLAGS env = MANDATORY_VERIFY_FLAGS env
     \<and> VERIFY_WITNESS env AND STANDARD_VERIFY_FLAGS env = VERIFY_WITNESS env"
  unfolding MANDATORY_def STANDARD_def
  by (auto simp: bit_eq_iff bit_and_iff bit_or_iff)

end
